theory Spec2Isabelle
  imports Main "HOL-Library.Word" "HOL-Library.Multiset"
begin

section \<open>The bulk loader of \<open>loader/loader.go\<close>\<close>

text \<open>
  The loader is a pipeline of goroutines: one reader (\<open>readLines\<close>), a pool of parse
  workers (\<open>parseStream\<close>), a pool of mutation workers (\<open>handleNQuads\<close>) and the
  coordinator (\<open>LoadEdges\<close>). They share the counters, the error register and two
  buffered channels. The embedding is an interleaving semantics: every goroutine has a
  program counter, and one step of a goroutine is one operation on the shared state
  (a channel operation, an atomic add, a locked read or write of the error, a call into
  the store), together with the local computation next to it. A step that would block
  (a receive on an empty open channel, a send on a full one, a wait on a wait group
  that is not yet zero) is not enabled. A \<open>log.Fatalf\<close> or a panic in any goroutine
  ends the process: no step is enabled afterwards. A schedule is a list of actions;
  \<open>exec\<close> runs a schedule and is executable, so that a concrete run can be evaluated.
  The goroutine \<open>printCounters\<close> only reads the counters and writes to the log; of it
  the embedding keeps the field \<open>pending\<close> that it computes.
\<close>

subsection \<open>Data\<close>

type_synonym uint64 = "64 word"

text \<open>
  Go's \<open>error\<close> values that the loader tells apart: \<open>io.EOF\<close>, the sentinel
  \<open>posting.E_TMP_ERROR\<close>, and any other error. A nil \<open>error\<close> is \<open>None\<close> of
  \<open>error option\<close>.
\<close>

datatype error = EOF | E_TMP_ERROR | Err string

record counters =
  read :: uint64
  parsed :: uint64
  processed :: uint64
  ignored :: uint64

text \<open>
  Modelled from the spec: \<open>rdf.NQuad\<close> is declared in package \<open>rdf\<close>; the structured
  triple is entity, attribute, value and a label. The loader reads \<open>Predicate\<close> only.
\<close>

record nquad =
  Subject :: string
  Predicate :: string
  ObjectValue :: string
  Label :: string

text \<open>
  Modelled from the spec: \<open>x.DirectedEdge\<close> is declared in package \<open>x\<close>; the directed
  edge is keyed by entity and attribute, and \<open>posting.Key\<close> builds that key.
\<close>

record edge =
  Entity :: uint64
  Attribute :: string
  Value :: string

type_synonym key = "uint64 \<times> string"

definition Key :: "uint64 \<Rightarrow> string \<Rightarrow> key" where
  "Key uid attr = (uid, attr)"

text \<open>
  The calls a run makes that leave the loader, in the order they happen: the lines sent
  on \<open>s.input\<close>, the calls of \<open>SetError\<close>, and the three store calls of a mutation
  worker (with the worker's index). No step reads this log.
\<close>

datatype event =
    Emit string
  | SetErrorCall error
  | GetOrCreate nat key
  | AddMutationWithIndex nat key edge
  | Decr nat key

text \<open>How the whole process can die: \<open>log.Fatalf\<close> in the reader, or a panic.\<close>

datatype crash =
    FatalReadError
  | PanicIntn
  | PanicDivideByZero
  | PanicSendOnClosed
  | PanicNegativeWaitGroup

text \<open>
  The parameters of a run: the arguments of \<open>LoadEdges\<close>, the flag \<open>maxroutines\<close>,
  \<open>runtime.GOMAXPROCS(-1)\<close>, the lines the reader yields and the error that ends
  them, and the two functions of other packages that the workers call.
  \<open>window\<close> is the capacity of the reader's window, the literal 1000 in \<open>readLines\<close>,
  taken as a parameter.
\<close>

record config =
  instanceIdx :: uint64
  numInstances :: uint64
  numr :: nat
  maxRoutines :: int
  window :: nat
  stream :: "string list"
  stream_end :: error
  Fingerprint64 :: "string \<Rightarrow> uint64"
  Parse :: "string \<Rightarrow> error + nquad"

text \<open>The capacity of \<open>s.input\<close> and of \<open>s.cnq\<close>.\<close>

definition chan_cap :: nat where
  "chan_cap = 10000"

subsection \<open>Program counters\<close>

datatype rpc =
    RIdle
  | RFill nat
  | RRest
  | RSend nat string
  | RInc
  | RDrain nat
  | RDone

datatype ppc =
    PRecv
  | PCheck string
  | PSetError error
  | PSend nquad
  | PInc
  | PDone

datatype mpc =
    MRecv
  | MCheck nquad
  | MIgnore
  | MToEdge nquad
  | MSetError error
  | MGetOrCreate edge
  | MAddMutation edge
  | MDecr edge
  | MInc
  | MDone

datatype cpc =
    CInit
  | CSpawnParse nat
  | CSpawnMut nat
  | CWaitParse
  | CClose
  | CWaitMut
  | CStop
  | CReturned uint64 "error option"

record state =
  ctr :: counters
  err :: "error option"
  input :: "string list"
  input_closed :: bool
  cnq :: "nquad list"
  cnq_closed :: bool
  reader :: rpc
  rbuf :: "string list"
  rpos :: nat
  parsers :: "ppc list"
  mutators :: "mpc list"
  coord :: cpc
  trace :: "event list"
  crashed :: "crash option"

subsection \<open>The error register and the counters\<close>

definition Error :: "state \<Rightarrow> error option" where
  "Error s = err s"

definition SetError :: "error option \<Rightarrow> state \<Rightarrow> state" where
  "SetError e s = (if err s = None then s\<lparr>err := e\<rparr> else s)"

definition add_read :: "state \<Rightarrow> state" where
  "add_read s = s\<lparr>ctr := (ctr s)\<lparr>read := read (ctr s) + 1\<rparr>\<rparr>"

definition add_parsed :: "state \<Rightarrow> state" where
  "add_parsed s = s\<lparr>ctr := (ctr s)\<lparr>parsed := parsed (ctr s) + 1\<rparr>\<rparr>"

definition add_processed :: "state \<Rightarrow> state" where
  "add_processed s = s\<lparr>ctr := (ctr s)\<lparr>processed := processed (ctr s) + 1\<rparr>\<rparr>"

definition add_ignored :: "state \<Rightarrow> state" where
  "add_ignored s = s\<lparr>ctr := (ctr s)\<lparr>ignored := ignored (ctr s) + 1\<rparr>\<rparr>"

text \<open>The field \<open>pending\<close> that \<open>printCounters\<close> logs, in unsigned 64-bit arithmetic.\<close>

definition pending :: "counters \<Rightarrow> uint64" where
  "pending c = parsed c - ignored c - processed c"

definition panic :: "crash \<Rightarrow> state \<Rightarrow> state" where
  "panic c s = s\<lparr>crashed := Some c\<rparr>"

subsection \<open>\<open>readLines\<close>\<close>

text \<open>
  \<open>readLine\<close> on the buffered reader yields the next line of \<open>stream\<close>, or the error
  \<open>stream_end\<close> once the lines are used up. \<open>rpos\<close> counts the lines consumed, \<open>rbuf\<close>
  is the local slice \<open>buf\<close>. The argument \<open>k\<close> is what \<open>rand.Intn(len(buf))\<close> returns:
  a value below \<open>len(buf)\<close>, and a panic when \<open>len(buf)\<close> is 0.
\<close>

definition readLines_step :: "config \<Rightarrow> nat \<Rightarrow> state \<Rightarrow> state option" where
  "readLines_step cfg k s =
    (case reader s of
       RIdle \<Rightarrow> None
     | RFill i \<Rightarrow>
         if i < window cfg then
           (if rpos s < length (stream cfg)
            then Some (add_read (s\<lparr>rbuf := rbuf s @ [stream cfg ! rpos s],
                                   rpos := rpos s + 1, reader := RFill (i + 1)\<rparr>))
            else if stream_end cfg \<noteq> EOF then Some (panic FatalReadError s)
            else Some (s\<lparr>reader := RRest\<rparr>))
         else Some (s\<lparr>reader := RRest\<rparr>)
     | RRest \<Rightarrow>
         if rpos s < length (stream cfg) then
           (if length (rbuf s) = 0 then Some (panic PanicIntn s)
            else if k < length (rbuf s)
            then Some (s\<lparr>rpos := rpos s + 1, reader := RSend k (stream cfg ! rpos s)\<rparr>)
            else None)
         else if stream_end cfg \<noteq> EOF then Some (panic FatalReadError s)
         else Some (s\<lparr>reader := RDrain 0\<rparr>)
     | RSend j l \<Rightarrow>
         if length (input s) < chan_cap
         then Some (s\<lparr>input := input s @ [rbuf s ! j],
                      trace := trace s @ [Emit (rbuf s ! j)],
                      rbuf := (rbuf s)[j := l], reader := RInc\<rparr>)
         else None
     | RInc \<Rightarrow> Some (add_read (s\<lparr>reader := RRest\<rparr>))
     | RDrain i \<Rightarrow>
         if i < length (rbuf s) then
           (if length (input s) < chan_cap
            then Some (s\<lparr>input := input s @ [rbuf s ! i],
                         trace := trace s @ [Emit (rbuf s ! i)],
                         reader := RDrain (i + 1)\<rparr>)
            else None)
         else Some (s\<lparr>input_closed := True, reader := RDone\<rparr>)
     | RDone \<Rightarrow> None)"

subsection \<open>\<open>parseStream\<close>\<close>

text \<open>\<open>strings.Trim(line, cutset)\<close>: drop the leading and trailing bytes of the cutset.\<close>

definition Trim :: "string \<Rightarrow> string \<Rightarrow> string" where
  "Trim line cutset =
     rev (dropWhile (\<lambda>c. c \<in> set cutset) (rev (dropWhile (\<lambda>c. c \<in> set cutset) line)))"

definition blanks :: string where
  "blanks = [CHR '' '', CHR 0x09]"

definition set_parser :: "nat \<Rightarrow> ppc \<Rightarrow> state \<Rightarrow> state" where
  "set_parser i p s = s\<lparr>parsers := (parsers s)[i := p]\<rparr>"

definition parseStream_step :: "config \<Rightarrow> nat \<Rightarrow> state \<Rightarrow> state option" where
  "parseStream_step cfg i s =
    (case parsers s ! i of
       PRecv \<Rightarrow>
         (case input s of
            [] \<Rightarrow> if input_closed s then Some (set_parser i PDone s) else None
          | l # ls \<Rightarrow> Some (set_parser i (PCheck l) (s\<lparr>input := ls\<rparr>)))
     | PCheck l \<Rightarrow>
         if Error s \<noteq> None then Some (set_parser i PDone s)
         else
           (let line = Trim l blanks in
            if length line = 0 then Some (set_parser i PRecv s)
            else
              (case Parse cfg line of
                 Inl e \<Rightarrow> Some (set_parser i (PSetError e) s)
               | Inr nq \<Rightarrow> Some (set_parser i (PSend nq) s)))
     | PSetError e \<Rightarrow>
         Some (set_parser i PDone
                 ((SetError (Some e) s)\<lparr>trace := trace s @ [SetErrorCall e]\<rparr>))
     | PSend nq \<Rightarrow>
         if cnq_closed s then Some (panic PanicSendOnClosed s)
         else if length (cnq s) < chan_cap
         then Some (set_parser i PInc (s\<lparr>cnq := cnq s @ [nq]\<rparr>))
         else None
     | PInc \<Rightarrow> Some (set_parser i PRecv (add_parsed s))
     | PDone \<Rightarrow> None)"

subsection \<open>\<open>handleNQuads\<close>\<close>

text \<open>
  The argument \<open>r\<close> is what the call \<open>nq.ToEdge()\<close> returns at this step: an edge, or
  an error. The modulo of Go panics on a zero divisor.
\<close>

definition set_mutator :: "nat \<Rightarrow> mpc \<Rightarrow> state \<Rightarrow> state" where
  "set_mutator j m s = s\<lparr>mutators := (mutators s)[j := m]\<rparr>"

definition handleNQuads_step :: "config \<Rightarrow> nat \<Rightarrow> error + edge \<Rightarrow> state \<Rightarrow> state option" where
  "handleNQuads_step cfg j r s =
    (case mutators s ! j of
       MRecv \<Rightarrow>
         (case cnq s of
            [] \<Rightarrow> if cnq_closed s then Some (set_mutator j MDone s) else None
          | nq # rest \<Rightarrow> Some (set_mutator j (MCheck nq) (s\<lparr>cnq := rest\<rparr>)))
     | MCheck nq \<Rightarrow>
         if Error s \<noteq> None then Some (set_mutator j MDone s)
         else if numInstances cfg = 0 then Some (panic PanicDivideByZero s)
         else if Fingerprint64 cfg (Predicate nq) mod numInstances cfg \<noteq> instanceIdx cfg
         then Some (set_mutator j MIgnore s)
         else Some (set_mutator j (MToEdge nq) s)
     | MIgnore \<Rightarrow> Some (set_mutator j MRecv (add_ignored s))
     | MToEdge nq \<Rightarrow>
         (case r of
            Inr e \<Rightarrow> Some (set_mutator j (MGetOrCreate e) s)
          | Inl x \<Rightarrow>
              if x = E_TMP_ERROR then Some (set_mutator j (MToEdge nq) s)
              else Some (set_mutator j (MSetError x) s))
     | MSetError x \<Rightarrow>
         Some (set_mutator j MDone
                 ((SetError (Some x) s)\<lparr>trace := trace s @ [SetErrorCall x]\<rparr>))
     | MGetOrCreate e \<Rightarrow>
         Some (set_mutator j (MAddMutation e)
                 (s\<lparr>trace := trace s @ [GetOrCreate j (Key (Entity e) (Attribute e))]\<rparr>))
     | MAddMutation e \<Rightarrow>
         Some (set_mutator j (MDecr e)
                 (s\<lparr>trace := trace s @
                      [AddMutationWithIndex j (Key (Entity e) (Attribute e)) e]\<rparr>))
     | MDecr e \<Rightarrow>
         Some (set_mutator j MInc
                 (s\<lparr>trace := trace s @ [Decr j (Key (Entity e) (Attribute e))]\<rparr>))
     | MInc \<Rightarrow> Some (set_mutator j MRecv (add_processed s))
     | MDone \<Rightarrow> None)"

subsection \<open>\<open>LoadEdges\<close>\<close>

text \<open>
  The coordinator starts the reader, then \<open>numr\<close> parse workers, adds \<open>maxRoutines\<close> to
  the second wait group (a negative count panics) and starts that many mutation
  workers. \<open>pwg.Wait()\<close> returns once every parse worker has run its deferred
  \<open>wg.Done()\<close>, that is, has reached \<open>PDone\<close>; likewise \<open>wg.Wait()\<close>.
\<close>

definition LoadEdges_step :: "config \<Rightarrow> state \<Rightarrow> state option" where
  "LoadEdges_step cfg s =
    (case coord s of
       CInit \<Rightarrow> Some (s\<lparr>reader := RFill 0, coord := CSpawnParse 0\<rparr>)
     | CSpawnParse i \<Rightarrow>
         if i < numr cfg
         then Some (s\<lparr>parsers := parsers s @ [PRecv], coord := CSpawnParse (i + 1)\<rparr>)
         else if maxRoutines cfg < 0 then Some (panic PanicNegativeWaitGroup s)
         else Some (s\<lparr>coord := CSpawnMut 0\<rparr>)
     | CSpawnMut i \<Rightarrow>
         if int i < maxRoutines cfg
         then Some (s\<lparr>mutators := mutators s @ [MRecv], coord := CSpawnMut (i + 1)\<rparr>)
         else Some (s\<lparr>coord := CWaitParse\<rparr>)
     | CWaitParse \<Rightarrow>
         if list_all (\<lambda>p. p = PDone) (parsers s) then Some (s\<lparr>coord := CClose\<rparr>) else None
     | CClose \<Rightarrow> Some (s\<lparr>cnq_closed := True, coord := CWaitMut\<rparr>)
     | CWaitMut \<Rightarrow>
         if list_all (\<lambda>m. m = MDone) (mutators s) then Some (s\<lparr>coord := CStop\<rparr>) else None
     | CStop \<Rightarrow> Some (s\<lparr>coord := CReturned (processed (ctr s)) (Error s)\<rparr>)
     | CReturned n e \<Rightarrow> None)"

subsection \<open>Schedules\<close>

datatype action =
    Rd nat
  | Pa nat
  | Mu nat "error + edge"
  | Co

definition init :: state where
  "init =
    \<lparr>ctr = \<lparr>read = 0, parsed = 0, processed = 0, ignored = 0\<rparr>,
     err = None, input = [], input_closed = False, cnq = [], cnq_closed = False,
     reader = RIdle, rbuf = [], rpos = 0, parsers = [], mutators = [],
     coord = CInit, trace = [], crashed = None\<rparr>"

definition fire :: "config \<Rightarrow> action \<Rightarrow> state \<Rightarrow> state option" where
  "fire cfg a s =
    (if crashed s \<noteq> None then None
     else
       (case a of
          Rd k \<Rightarrow> readLines_step cfg k s
        | Pa i \<Rightarrow> if i < length (parsers s) then parseStream_step cfg i s else None
        | Mu j r \<Rightarrow> if j < length (mutators s) then handleNQuads_step cfg j r s else None
        | Co \<Rightarrow> LoadEdges_step cfg s))"

fun exec :: "config \<Rightarrow> action list \<Rightarrow> state \<Rightarrow> state option" where
  "exec cfg [] s = Some s"
| "exec cfg (a # as) s =
     (case fire cfg a s of None \<Rightarrow> None | Some s' \<Rightarrow> exec cfg as s')"

section \<open>Invariants of the pipeline\<close>

text \<open>
  What the coordinator's position says about the rest of the pipeline: how many workers
  have been started, whether \<open>s.cnq\<close> is closed, and which pools have exited.
\<close>

fun coord_ok :: "config \<Rightarrow> state \<Rightarrow> cpc \<Rightarrow> bool" where
  "coord_ok cfg s CInit =
     (parsers s = [] \<and> mutators s = [] \<and> reader s = RIdle \<and> \<not> cnq_closed s)"
| "coord_ok cfg s (CSpawnParse i) =
     (length (parsers s) = i \<and> i \<le> numr cfg \<and> mutators s = [] \<and> \<not> cnq_closed s)"
| "coord_ok cfg s (CSpawnMut i) =
     (length (parsers s) = numr cfg \<and> length (mutators s) = i \<and> int i \<le> maxRoutines cfg
      \<and> \<not> cnq_closed s)"
| "coord_ok cfg s CWaitParse =
     (length (parsers s) = numr cfg \<and> int (length (mutators s)) = maxRoutines cfg
      \<and> \<not> cnq_closed s)"
| "coord_ok cfg s CClose =
     (length (parsers s) = numr cfg \<and> int (length (mutators s)) = maxRoutines cfg
      \<and> list_all (\<lambda>p. p = PDone) (parsers s) \<and> \<not> cnq_closed s)"
| "coord_ok cfg s CWaitMut =
     (length (parsers s) = numr cfg \<and> int (length (mutators s)) = maxRoutines cfg
      \<and> list_all (\<lambda>p. p = PDone) (parsers s) \<and> cnq_closed s)"
| "coord_ok cfg s CStop =
     (length (parsers s) = numr cfg \<and> int (length (mutators s)) = maxRoutines cfg
      \<and> list_all (\<lambda>p. p = PDone) (parsers s) \<and> list_all (\<lambda>m. m = MDone) (mutators s)
      \<and> cnq_closed s)"
| "coord_ok cfg s (CReturned n e) =
     (length (parsers s) = numr cfg \<and> int (length (mutators s)) = maxRoutines cfg
      \<and> list_all (\<lambda>p. p = PDone) (parsers s) \<and> list_all (\<lambda>m. m = MDone) (mutators s)
      \<and> cnq_closed s \<and> n = processed (ctr s) \<and> e = err s)"

definition wf :: "config \<Rightarrow> state \<Rightarrow> bool" where
  "wf cfg s = (coord_ok cfg s (coord s) \<and> crashed s \<noteq> Some PanicSendOnClosed)"

text \<open>
  The counters, as long as no error has been set: every triple sent on \<open>s.cnq\<close> is
  counted as parsed or its sender is about to count it (\<open>PInc\<close>); it is still in the
  channel, or held by a mutation worker, or counted as processed or ignored. All sums
  are taken in 64-bit arithmetic, as the counters are.
\<close>

fun pinc :: "ppc \<Rightarrow> nat" where
  "pinc PInc = 1"
| "pinc _ = 0"

fun inflight :: "mpc \<Rightarrow> nat" where
  "inflight MRecv = 0"
| "inflight MDone = 0"
| "inflight _ = 1"

definition balance :: "state \<Rightarrow> bool" where
  "balance s =
     (err s = None \<longrightarrow>
        parsed (ctr s) + of_nat (sum_list (map pinc (parsers s))) =
        processed (ctr s) + ignored (ctr s) + of_nat (length (cnq s))
          + of_nat (sum_list (map inflight (mutators s))))"

definition drained :: "state \<Rightarrow> bool" where
  "drained s = (err s = None \<and> MDone \<in> set (mutators s) \<longrightarrow> cnq s = [] \<and> cnq_closed s)"

text \<open>The first error passed to \<open>SetError\<close> in a log, and the lines sent on \<open>s.input\<close>.\<close>

fun first_error :: "event list \<Rightarrow> error option" where
  "first_error [] = None"
| "first_error (SetErrorCall e # evs) = Some e"
| "first_error (_ # evs) = first_error evs"

definition err_inv :: "state \<Rightarrow> bool" where
  "err_inv s = (err s = first_error (trace s))"

fun emitted :: "event list \<Rightarrow> string list" where
  "emitted [] = []"
| "emitted (Emit l # evs) = l # emitted evs"
| "emitted (_ # evs) = emitted evs"




text \<open>
  The store calls of mutation worker \<open>j\<close> in a log. A log of complete leases is a
  sequence of rounds \<open>GetOrCreate\<close>, \<open>AddMutationWithIndex\<close>, \<open>Decr\<close> on one key;
  \<open>open_calls\<close> is the round a worker has begun and not finished.
\<close>

fun is_call_of :: "nat \<Rightarrow> event \<Rightarrow> bool" where
  "is_call_of j (GetOrCreate i k) = (i = j)"
| "is_call_of j (AddMutationWithIndex i k e) = (i = j)"
| "is_call_of j (Decr i k) = (i = j)"
| "is_call_of j _ = False"

definition store_calls :: "nat \<Rightarrow> event list \<Rightarrow> event list" where
  "store_calls j evs = filter (is_call_of j) evs"

fun cycles :: "event list \<Rightarrow> bool" where
  "cycles [] = True"
| "cycles (GetOrCreate i k # AddMutationWithIndex i' k' e # Decr i'' k'' # evs) =
     (i' = i \<and> i'' = i \<and> k = Key (Entity e) (Attribute e) \<and> k' = k \<and> k'' = k \<and> cycles evs)"
| "cycles _ = False"

fun open_calls :: "nat \<Rightarrow> mpc \<Rightarrow> event list" where
  "open_calls j (MAddMutation e) = [GetOrCreate j (Key (Entity e) (Attribute e))]"
| "open_calls j (MDecr e) =
     [GetOrCreate j (Key (Entity e) (Attribute e)),
      AddMutationWithIndex j (Key (Entity e) (Attribute e)) e]"
| "open_calls j _ = []"

definition lease_ok :: "nat \<Rightarrow> state \<Rightarrow> bool" where
  "lease_ok j s =
     (\<exists>cs. cycles cs \<and>
        store_calls j (trace s) =
          cs @ (if j < length (mutators s) then open_calls j (mutators s ! j) else []))"

definition no_div_crash :: "state \<Rightarrow> bool" where
  "no_div_crash s = (crashed s \<noteq> Some PanicDivideByZero)"

text \<open>
  The steps of mutation worker \<open>j\<close> in a schedule, as the results that \<open>ToEdge\<close> is
  given at each of them. Between the sharding test and the return to the head of the
  loop the worker's next position depends on that result alone and on nothing shared:
  \<open>mstep_local\<close> follows \<open>handleNQuads\<close> there, \<open>mrun_local\<close> follows it over several
  steps.
\<close>

fun mine :: "nat \<Rightarrow> action list \<Rightarrow> (error + edge) list" where
  "mine j [] = []"
| "mine j (Mu i r # as) = (if i = j then r # mine j as else mine j as)"
| "mine j (a # as) = mine j as"

fun mstep_local :: "mpc \<Rightarrow> error + edge \<Rightarrow> mpc option" where
  "mstep_local MIgnore r = Some MRecv"
| "mstep_local (MToEdge nq) (Inr e) = Some (MGetOrCreate e)"
| "mstep_local (MToEdge nq) (Inl x) =
     Some (if x = E_TMP_ERROR then MToEdge nq else MSetError x)"
| "mstep_local (MSetError x) r = Some MDone"
| "mstep_local (MGetOrCreate e) r = Some (MAddMutation e)"
| "mstep_local (MAddMutation e) r = Some (MDecr e)"
| "mstep_local (MDecr e) r = Some MInc"
| "mstep_local MInc r = Some MRecv"
| "mstep_local m r = None"

fun mrun_local :: "mpc \<Rightarrow> (error + edge) list \<Rightarrow> mpc option" where
  "mrun_local m [] = Some m"
| "mrun_local m (r # rs) =
     (case mstep_local m r of None \<Rightarrow> None | Some m' \<Rightarrow> mrun_local m' rs)"



section \<open>Concrete runs\<close>

text \<open>
  Scenario A of the specification: the single line \<open>a b c .\<close>, one instance. The hash
  and the parser stand for \<open>farm.Fingerprint64\<close> and \<open>rdf.Parse\<close>; the hash gives the
  predicate \<open>b\<close> an even value, so that of two instances instance 0 owns it.
\<close>

definition nq_abc :: nquad where
  "nq_abc = \<lparr>Subject = ''a'', Predicate = ''b'', ObjectValue = ''c'', Label = []\<rparr>"

definition edge_abc :: edge where
  "edge_abc = \<lparr>Entity = 1, Attribute = ''b'', Value = ''c''\<rparr>"

definition parse_demo :: "string \<Rightarrow> error + nquad" where
  "parse_demo l = (if l = ''a b c .'' then Inr nq_abc else Inl (Err ''parse''))"

definition scenarioA :: config where
  "scenarioA =
     \<lparr>instanceIdx = 0, numInstances = 1, numr = 1, maxRoutines = 1, window = 1000,
      stream = [''a b c .''], stream_end = EOF,
      Fingerprint64 = (\<lambda>p. 2 * of_nat (length p)), Parse = parse_demo\<rparr>"

text \<open>Scenario B: the same input with two instances, run as instance 0.\<close>

definition scenarioB :: config where
  "scenarioB = scenarioA\<lparr>numInstances := 2\<rparr>"

definition no_mutators :: config where
  "no_mutators = scenarioA\<lparr>maxRoutines := 0\<rparr>"

text \<open>Scenario C: a malformed line between two well-formed ones, two parse workers.\<close>

definition scenarioC :: config where
  "scenarioC =
     \<lparr>instanceIdx = 0, numInstances = 1, numr = 2, maxRoutines = 1, window = 1000,
      stream = [''a b c .'', ''a b'', ''a b c .''], stream_end = EOF,
      Fingerprint64 = (\<lambda>p. 2 * of_nat (length p)), Parse = parse_demo\<rparr>"

definition zero_instances :: config where
  "zero_instances = scenarioC\<lparr>numInstances := 0\<rparr>"

definition small_window :: config where
  "small_window = scenarioC\<lparr>window := 2\<rparr>"

definition ok :: "error + edge" where
  "ok = Inr edge_abc"

definition tmp :: "error + edge" where
  "tmp = Inl E_TMP_ERROR"

text \<open>
  Scenario A up to the point where the parse worker has sent the triple and not yet
  counted it, and the mutation worker has received it.
\<close>

definition run_to_check :: "action list" where
  "run_to_check =
     [Co, Co, Co, Co, Co, Rd 0, Rd 0, Rd 0, Rd 0, Pa 0, Pa 0, Pa 0, Mu 0 ok]"

definition s_check :: state where
  "s_check =
     \<lparr>ctr = \<lparr>read = 1, parsed = 0, processed = 0, ignored = 0\<rparr>, err = None,
      input = [], input_closed = False, cnq = [], cnq_closed = False,
      reader = RDrain 1, rbuf = [''a b c .''], rpos = 1, parsers = [PInc],
      mutators = [MCheck nq_abc], coord = CWaitParse, trace = [Emit ''a b c .''],
      crashed = None\<rparr>"

definition race_run :: "action list" where
  "race_run = run_to_check @ [Mu 0 ok, Mu 0 ok, Mu 0 ok, Mu 0 ok, Mu 0 ok, Mu 0 ok]"

text \<open>Scenario A to the end.\<close>

definition full_run :: "action list" where
  "full_run =
     [Co, Co, Co, Co, Co, Rd 0, Rd 0, Rd 0, Rd 0, Rd 0, Pa 0, Pa 0, Pa 0, Pa 0, Pa 0,
      Mu 0 ok, Mu 0 ok, Mu 0 ok, Mu 0 ok, Mu 0 ok, Mu 0 ok, Mu 0 ok,
      Co, Co, Mu 0 ok, Co, Co]"

definition final_A :: state where
  "final_A =
     \<lparr>ctr = \<lparr>read = 1, parsed = 1, processed = 1, ignored = 0\<rparr>, err = None,
      input = [], input_closed = True, cnq = [], cnq_closed = True,
      reader = RDone, rbuf = [''a b c .''], rpos = 1, parsers = [PDone],
      mutators = [MDone], coord = CReturned 1 None,
      trace =
        [Emit ''a b c .'', GetOrCreate 0 (1, ''b''),
         AddMutationWithIndex 0 (1, ''b'') edge_abc, Decr 0 (1, ''b'')],
      crashed = None\<rparr>"

definition nomut_run :: "action list" where
  "nomut_run =
     [Co, Co, Co, Co, Rd 0, Rd 0, Rd 0, Rd 0, Rd 0, Pa 0, Pa 0, Pa 0, Pa 0, Pa 0,
      Co, Co, Co, Co]"

text \<open>
  Scenario C up to the point where parse worker 0 has sent the first triple and set the
  error for the second line, and then to the end.
\<close>

definition err_prefix :: "action list" where
  "err_prefix =
     [Co, Co, Co, Co, Co, Co, Rd 0, Rd 0, Rd 0, Rd 0, Rd 0, Rd 0, Rd 0, Rd 0,
      Pa 0, Pa 0, Pa 0, Pa 0, Pa 0, Pa 0, Pa 0]"

definition s_err :: state where
  "s_err =
     \<lparr>ctr = \<lparr>read = 3, parsed = 1, processed = 0, ignored = 0\<rparr>,
      err = Some (Err ''parse''), input = [''a b c .''], input_closed = False,
      cnq = [nq_abc], cnq_closed = False, reader = RDrain 3,
      rbuf = [''a b c .'', ''a b'', ''a b c .''], rpos = 3,
      parsers = [PDone, PRecv], mutators = [MRecv], coord = CWaitParse,
      trace =
        [Emit ''a b c .'', Emit ''a b'', Emit ''a b c .'', SetErrorCall (Err ''parse'')],
      crashed = None\<rparr>"

definition err_rest :: "action list" where
  "err_rest = [Pa 1, Pa 1, Co, Co, Mu 0 ok, Mu 0 ok, Co, Co]"

definition final_C :: state where
  "final_C =
     \<lparr>ctr = \<lparr>read = 3, parsed = 1, processed = 0, ignored = 0\<rparr>,
      err = Some (Err ''parse''), input = [], input_closed = False, cnq = [],
      cnq_closed = True, reader = RDrain 3,
      rbuf = [''a b c .'', ''a b'', ''a b c .''], rpos = 3,
      parsers = [PDone, PDone], mutators = [MDone],
      coord = CReturned 0 (Some (Err ''parse'')),
      trace =
        [Emit ''a b c .'', Emit ''a b'', Emit ''a b c .'', SetErrorCall (Err ''parse'')],
      crashed = None\<rparr>"



text \<open>Scenario C with \<open>numInstances = 0\<close>, up to the first triple's arrival at a mutation worker.\<close>

definition zero_check_run :: "action list" where
  "zero_check_run =
     [Co, Co, Co, Co, Co, Co, Rd 0, Rd 0, Rd 0, Rd 0, Rd 0, Rd 0, Pa 0, Pa 0, Pa 0, Mu 0 ok]"

definition s_check0 :: state where
  "s_check0 =
     \<lparr>ctr = \<lparr>read = 3, parsed = 0, processed = 0, ignored = 0\<rparr>, err = None,
      input = [], input_closed = False, cnq = [], cnq_closed = False,
      reader = RDrain 1, rbuf = [''a b c .'', ''a b'', ''a b c .''],
      rpos = 3, parsers = [PInc, PRecv], mutators = [MCheck nq_abc],
      coord = CWaitParse, trace = [Emit ''a b c .''], crashed = None\<rparr>"

text \<open>
  Scenario C with two instances, run as instance 1, which does not own the predicate:
  up to the point where the mutation worker has received the first triple.
\<close>

definition scenarioD :: config where
  "scenarioD = scenarioC\<lparr>numInstances := 2, instanceIdx := 1\<rparr>"

definition to_checkD :: "action list" where
  "to_checkD =
     [Co, Co, Co, Co, Co, Co, Rd 0, Rd 0, Rd 0, Rd 0, Rd 0, Rd 0, Rd 0, Rd 0,
      Pa 0, Pa 0, Pa 0, Pa 0, Mu 0 ok]"

definition s_checkD :: state where
  "s_checkD =
     \<lparr>ctr = \<lparr>read = 3, parsed = 1, processed = 0, ignored = 0\<rparr>, err = None,
      input = [''a b'', ''a b c .''], input_closed = False, cnq = [],
      cnq_closed = False, reader = RDrain 3,
      rbuf = [''a b c .'', ''a b'', ''a b c .''], rpos = 3,
      parsers = [PRecv, PRecv], mutators = [MCheck nq_abc], coord = CWaitParse,
      trace = [Emit ''a b c .'', Emit ''a b'', Emit ''a b c .''],
      crashed = None\<rparr>"

text \<open>
  Two well-formed lines and two mutation workers: up to the point where both workers
  are about to call \<open>ToEdge\<close>, then both calls fail for good, worker 0 first.
\<close>

definition two_mutators :: config where
  "two_mutators = scenarioA\<lparr>stream := [''a b c .'', ''a b c .''], maxRoutines := 2\<rparr>"

definition clash_start :: "action list" where
  "clash_start =
     [Co, Co, Co, Co, Co, Co, Rd 0, Rd 0, Rd 0, Rd 0, Rd 0, Rd 0, Rd 0,
      Pa 0, Pa 0, Pa 0, Pa 0, Pa 0, Pa 0, Pa 0, Pa 0, Pa 0,
      Mu 0 ok, Mu 0 ok, Mu 1 ok, Mu 1 ok]"

definition s_clash :: state where
  "s_clash =
     \<lparr>ctr = \<lparr>read = 2, parsed = 2, processed = 0, ignored = 0\<rparr>, err = None,
      input = [], input_closed = True, cnq = [], cnq_closed = False,
      reader = RDone, rbuf = [''a b c .'', ''a b c .''], rpos = 2,
      parsers = [PDone], mutators = [MToEdge nq_abc, MToEdge nq_abc],
      coord = CWaitParse, trace = [Emit ''a b c .'', Emit ''a b c .''],
      crashed = None\<rparr>"

definition clash_mid :: "action list" where
  "clash_mid = [Mu 0 (Inl (Err ''first'')), Mu 0 ok, Mu 1 tmp, Mu 1 (Inl (Err ''second''))]"

definition clash_end :: "action list" where
  "clash_end = [Mu 1 ok, Co, Co, Co, Co]"

definition s_check1 :: state where
  "s_check1 = s_clash\<lparr>mutators := [MToEdge nq_abc, MCheck nq_abc]\<rparr>"

definition s_held :: state where
  "s_held = s_clash\<lparr>err := Some (Err ''first''), mutators := [MDone, MToEdge nq_abc],
               trace := trace s_clash @ [SetErrorCall (Err ''first'')]\<rparr>"

definition held_run :: "action list" where
  "held_run = [Mu 0 (Inl (Err ''first'')), Mu 0 ok, Mu 1 tmp]"




text \<open>
  A run that never returns: 10002 well-formed lines, one parse worker, one mutation
  worker. The states of the run between its rounds: \<open>dl_fill i\<close> while the reader fills
  its window, \<open>dl_rest m n c\<close> in its second loop after \<open>n\<close> lines have gone through the
  parse worker, with \<open>c\<close> triples waiting in \<open>s.cnq\<close> and the mutation worker at \<open>m\<close>,
  \<open>dl_drain i\<close> while the window is drained, and \<open>dl_stuck\<close> at the end.
\<close>

definition deadlock_cfg :: config where
  "deadlock_cfg = scenarioA\<lparr>stream := replicate 10002 ''a b c .''\<rparr>"

definition dl_fill :: "nat \<Rightarrow> state" where
  "dl_fill i =
     \<lparr>ctr = \<lparr>read = of_nat i, parsed = 0, processed = 0, ignored = 0\<rparr>, err = None,
      input = [], input_closed = False, cnq = [], cnq_closed = False, reader = RFill i,
      rbuf = replicate i ''a b c .'', rpos = i, parsers = [PRecv], mutators = [MRecv],
      coord = CWaitParse, trace = [], crashed = None\<rparr>"

definition dl_rest :: "mpc \<Rightarrow> nat \<Rightarrow> nat \<Rightarrow> state" where
  "dl_rest m n c =
     \<lparr>ctr = \<lparr>read = of_nat (1000 + n), parsed = of_nat n, processed = 0, ignored = 0\<rparr>,
      err = None, input = [], input_closed = False, cnq = replicate c nq_abc,
      cnq_closed = False, reader = RRest, rbuf = replicate 1000 ''a b c .'',
      rpos = 1000 + n, parsers = [PRecv], mutators = [m], coord = CWaitParse,
      trace = replicate n (Emit ''a b c .''), crashed = None\<rparr>"

definition dl_drain :: "nat \<Rightarrow> state" where
  "dl_drain i =
     \<lparr>ctr = \<lparr>read = 10002, parsed = of_nat (9002 + i), processed = 0, ignored = 0\<rparr>,
      err = None, input = [], input_closed = False, cnq = replicate (9001 + i) nq_abc,
      cnq_closed = False, reader = RDrain i, rbuf = replicate 1000 ''a b c .'',
      rpos = 10002, parsers = [PRecv], mutators = [MToEdge nq_abc], coord = CWaitParse,
      trace = replicate (9002 + i) (Emit ''a b c .''), crashed = None\<rparr>"

definition dl_stuck :: state where
  "dl_stuck =
     \<lparr>ctr = \<lparr>read = 10002, parsed = 10001, processed = 0, ignored = 0\<rparr>,
      err = Some (Err ''uid''), input = [], input_closed = True,
      cnq = replicate 10000 nq_abc, cnq_closed = False, reader = RDone,
      rbuf = replicate 1000 ''a b c .'', rpos = 10002, parsers = [PSend nq_abc],
      mutators = [MDone], coord = CWaitParse,
      trace = replicate 10002 (Emit ''a b c .'') @ [SetErrorCall (Err ''uid'')],
      crashed = None\<rparr>"

text \<open>
  One line through the reader's second loop and the parse worker; one line through the
  drain loop and the parse worker.
\<close>

definition round_rest :: "action list" where
  "round_rest = [Rd 0, Rd 0, Rd 0, Pa 0, Pa 0, Pa 0, Pa 0]"

definition round_drain :: "action list" where
  "round_drain = [Rd 0, Pa 0, Pa 0, Pa 0, Pa 0]"

text \<open>
  The coordinator starts the goroutines and the reader fills its window. The first
  triple goes to the mutation worker, which stays in its \<open>ToEdge\<close> call while the other
  lines are read and parsed, until \<open>s.cnq\<close> is full and the parse worker is at its send
  with the last triple. Then the reader closes \<open>s.input\<close>, and \<open>ToEdge\<close> fails for good:
  the mutation worker sets the error and exits.
\<close>

definition deadlock_run :: "action list" where
  "deadlock_run =
     [Co, Co, Co, Co, Co] @ concat (replicate 1000 [Rd 0]) @ [Rd 0] @ round_rest
     @ [Mu 0 ok, Mu 0 ok] @ concat (replicate 9001 round_rest) @ [Rd 0]
     @ concat (replicate 999 round_drain)
     @ [Rd 0, Pa 0, Pa 0, Rd 0, Mu 0 (Inl (Err ''uid'')), Mu 0 ok]"

section \<open>Lemmas\<close>

subsection \<open>Running a schedule\<close>

lemma exec_append:
  "exec cfg (xs @ ys) s = (case exec cfg xs s of None \<Rightarrow> None | Some t \<Rightarrow> exec cfg ys t)"
  by (induction xs arbitrary: s) (auto split: option.splits)

lemma exec_snoc:
  "exec cfg (xs @ [a]) s = (case exec cfg xs s of None \<Rightarrow> None | Some t \<Rightarrow> fire cfg a t)"
  by (simp add: exec_append split: option.splits)

lemma exec_invariant:
  assumes run: "exec cfg acts s0 = Some s"
    and base: "P s0"
    and step: "\<And>t a t'. P t \<Longrightarrow> fire cfg a t = Some t' \<Longrightarrow> P t'"
  shows "P s"
  using run
proof (induction acts arbitrary: s rule: rev_induct)
  case Nil
  with base show ?case by simp
next
  case (snoc a acts)
  from snoc.prems obtain t where t: "exec cfg acts s0 = Some t" and f: "fire cfg a t = Some s"
    by (auto simp: exec_snoc split: option.splits)
  from snoc.IH [OF t] have "P t" .
  then show ?case using f by (rule step)
qed

lemma list_all_nth: "list_all P xs \<Longrightarrow> i < length xs \<Longrightarrow> P (xs ! i)"
  by (simp add: list_all_length)

lemma in_set_updateD: "x \<in> set (xs[i := v]) \<Longrightarrow> x = v \<or> x \<in> set xs"
  using set_update_subset_insert [of xs i v] by auto

lemma first_error_append:
  "first_error (xs @ ys) = (case first_error xs of None \<Rightarrow> first_error ys | Some e \<Rightarrow> Some e)"
  by (induction xs rule: first_error.induct) auto

lemma emitted_append: "emitted (xs @ ys) = emitted xs @ emitted ys"
  by (induction xs rule: emitted.induct) auto

lemma store_calls_append: "store_calls j (xs @ ys) = store_calls j xs @ store_calls j ys"
  by (simp add: store_calls_def)


subsection \<open>What a step of each goroutine leaves alone\<close>

lemma parser_frame:
  assumes "parseStream_step cfg i s = Some s'"
  shows "reader s' = reader s \<and> rbuf s' = rbuf s \<and> rpos s' = rpos s
     \<and> emitted (trace s') = emitted (trace s)
     \<and> (crashed s' = crashed s \<or> crashed s' = Some PanicSendOnClosed)"
  using assms unfolding parseStream_step_def
  by (auto simp: add_parsed_def panic_def set_parser_def SetError_def Error_def Let_def
        emitted_append split: ppc.splits if_splits list.splits sum.splits)



lemma reader_crash:
  "readLines_step cfg k s = Some s' \<Longrightarrow>
     crashed s' = crashed s \<or> crashed s' = Some FatalReadError \<or> crashed s' = Some PanicIntn"
  unfolding readLines_step_def
  by (auto simp: add_read_def panic_def split: rpc.splits if_splits)

lemma parser_crash:
  "parseStream_step cfg i s = Some s' \<Longrightarrow>
     crashed s' = crashed s \<or> crashed s' = Some PanicSendOnClosed"
  using parser_frame by blast

lemma mutator_crash:
  "handleNQuads_step cfg j r s = Some s' \<Longrightarrow>
     crashed s' = crashed s \<or> (crashed s' = Some PanicDivideByZero \<and> numInstances cfg = 0)"
  unfolding handleNQuads_step_def
  by (auto simp: add_processed_def add_ignored_def panic_def set_mutator_def SetError_def
        Error_def split: mpc.splits if_splits list.splits sum.splits)

lemma coord_crash:
  "LoadEdges_step cfg s = Some s' \<Longrightarrow>
     crashed s' = crashed s \<or> crashed s' = Some PanicNegativeWaitGroup"
  unfolding LoadEdges_step_def
  by (auto simp: panic_def split: cpc.splits if_splits)

lemma coord_returned_fire:
  "fire cfg a s = Some s' \<Longrightarrow> coord s = CReturned n e \<Longrightarrow> coord s' = CReturned n e"
  unfolding fire_def readLines_step_def parseStream_step_def handleNQuads_step_def
    LoadEdges_step_def
  by (cases a)
     (auto simp: add_read_def add_parsed_def add_processed_def add_ignored_def panic_def
        set_parser_def set_mutator_def SetError_def Error_def Let_def
        split: rpc.splits ppc.splits mpc.splits if_splits list.splits sum.splits)

lemma coord_returned_exec:
  "exec cfg acts s = Some s' \<Longrightarrow> coord s = CReturned n e \<Longrightarrow> coord s' = CReturned n e"
  by (erule exec_invariant [where P = "\<lambda>t. coord t = CReturned n e"])
     (auto intro: coord_returned_fire)


subsection \<open>The coordinator and the pools\<close>

lemma wf_init: "wf cfg init"
  by (simp add: wf_def init_def)

lemma wf_reader: "wf cfg s \<Longrightarrow> readLines_step cfg k s = Some s' \<Longrightarrow> wf cfg s'"
  unfolding wf_def readLines_step_def
  by (cases "coord s") (auto simp: add_read_def panic_def split: rpc.splits if_splits)

lemma wf_parser:
  "wf cfg s \<Longrightarrow> i < length (parsers s) \<Longrightarrow> parseStream_step cfg i s = Some s' \<Longrightarrow> wf cfg s'"
  unfolding wf_def parseStream_step_def
  by (cases "coord s")
     (auto simp: add_parsed_def panic_def set_parser_def SetError_def Error_def Let_def
           dest: list_all_nth split: ppc.splits if_splits list.splits sum.splits)

lemma wf_mutator:
  "wf cfg s \<Longrightarrow> j < length (mutators s) \<Longrightarrow> handleNQuads_step cfg j r s = Some s' \<Longrightarrow> wf cfg s'"
  unfolding wf_def handleNQuads_step_def
  by (cases "coord s")
     (auto simp: add_processed_def add_ignored_def panic_def set_mutator_def SetError_def Error_def
           dest: list_all_nth split: mpc.splits if_splits list.splits sum.splits)

lemma wf_coord: "wf cfg s \<Longrightarrow> LoadEdges_step cfg s = Some s' \<Longrightarrow> wf cfg s'"
  unfolding wf_def LoadEdges_step_def
  by (cases "coord s") (auto simp: panic_def Error_def split: if_splits)

lemma wf_fire: "wf cfg s \<Longrightarrow> fire cfg a s = Some s' \<Longrightarrow> wf cfg s'"
  unfolding fire_def
  by (cases a) (auto intro: wf_reader wf_parser wf_mutator wf_coord split: if_splits)

lemma wf_reachable: "exec cfg acts init = Some s \<Longrightarrow> wf cfg s"
  by (erule exec_invariant [where P = "wf cfg"]) (auto intro: wf_init wf_fire)

lemma closed_parsers_done:
  "wf cfg s \<Longrightarrow> cnq_closed s \<Longrightarrow> i < length (parsers s) \<Longrightarrow> parsers s ! i = PDone"
  unfolding wf_def by (cases "coord s") (auto dest: list_all_nth)


subsection \<open>The counters\<close>

lemma sum_list_map_update:
  "i < length xs \<Longrightarrow>
     sum_list (map f (xs[i := v])) + f (xs ! i) = sum_list (map f xs) + (f v :: nat)"
proof (induction xs arbitrary: i)
  case Nil
  then show ?case by simp
next
  case (Cons x xs)
  then show ?case by (cases i) auto
qed

lemma word_sum_update:
  "i < length xs \<Longrightarrow>
     (of_nat (sum_list (map f (xs[i := v]))) :: uint64) =
       of_nat (sum_list (map f xs)) - of_nat (f (xs ! i)) + of_nat (f v)"
proof -
  assume "i < length xs"
  then have "sum_list (map f (xs[i := v])) + f (xs ! i) = sum_list (map f xs) + f v"
    by (rule sum_list_map_update)
  then have "(of_nat (sum_list (map f (xs[i := v])) + f (xs ! i)) :: uint64) =
        of_nat (sum_list (map f xs) + f v)"
    by simp
  then show ?thesis by (simp add: algebra_simps)
qed

lemma balance_init: "balance init"
  by (simp add: balance_def init_def)

lemma balance_reader: "balance s \<Longrightarrow> readLines_step cfg k s = Some s' \<Longrightarrow> balance s'"
  unfolding balance_def readLines_step_def
  by (auto simp: add_read_def panic_def split: rpc.splits if_splits)

lemma balance_parser:
  "balance s \<Longrightarrow> i < length (parsers s) \<Longrightarrow> parseStream_step cfg i s = Some s' \<Longrightarrow> balance s'"
  unfolding balance_def parseStream_step_def
  by (auto simp: add_parsed_def panic_def set_parser_def SetError_def Error_def Let_def
        word_sum_update split: ppc.splits if_splits list.splits sum.splits)

lemma balance_mutator:
  "balance s \<Longrightarrow> j < length (mutators s) \<Longrightarrow> handleNQuads_step cfg j r s = Some s' \<Longrightarrow> balance s'"
  unfolding balance_def handleNQuads_step_def
  by (auto simp: add_processed_def add_ignored_def panic_def set_mutator_def SetError_def
        Error_def word_sum_update split: mpc.splits if_splits list.splits sum.splits)

lemma balance_coord: "balance s \<Longrightarrow> LoadEdges_step cfg s = Some s' \<Longrightarrow> balance s'"
  unfolding balance_def LoadEdges_step_def
  by (auto simp: panic_def Error_def split: cpc.splits if_splits)

lemma balance_fire: "balance s \<Longrightarrow> fire cfg a s = Some s' \<Longrightarrow> balance s'"
  unfolding fire_def
  by (cases a) (auto intro: balance_reader balance_parser balance_mutator balance_coord
        split: if_splits)

lemma drained_init: "drained init"
  by (simp add: drained_def init_def)

lemma drained_reader: "drained s \<Longrightarrow> readLines_step cfg k s = Some s' \<Longrightarrow> drained s'"
  unfolding drained_def readLines_step_def
  by (auto simp: add_read_def panic_def split: rpc.splits if_splits)

lemma drained_parser:
  "wf cfg s \<Longrightarrow> drained s \<Longrightarrow> i < length (parsers s) \<Longrightarrow>
     parseStream_step cfg i s = Some s' \<Longrightarrow> drained s'"
  unfolding drained_def parseStream_step_def
  by (auto simp: add_parsed_def panic_def set_parser_def SetError_def Error_def Let_def
        dest: closed_parsers_done split: ppc.splits if_splits list.splits sum.splits)

lemma drained_mutator:
  "drained s \<Longrightarrow> j < length (mutators s) \<Longrightarrow> handleNQuads_step cfg j r s = Some s' \<Longrightarrow>
     drained s'"
  unfolding drained_def handleNQuads_step_def
  by (auto simp: add_processed_def add_ignored_def panic_def set_mutator_def SetError_def
        Error_def dest!: in_set_updateD
        split: mpc.splits if_splits list.splits sum.splits)

lemma drained_coord: "drained s \<Longrightarrow> LoadEdges_step cfg s = Some s' \<Longrightarrow> drained s'"
  unfolding drained_def LoadEdges_step_def
  by (auto simp: panic_def Error_def split: cpc.splits if_splits)

lemma drained_fire: "wf cfg s \<Longrightarrow> drained s \<Longrightarrow> fire cfg a s = Some s' \<Longrightarrow> drained s'"
  unfolding fire_def
  by (cases a) (auto intro: drained_reader drained_parser drained_mutator drained_coord
        split: if_splits)

lemma inv_reachable:
  "exec cfg acts init = Some s \<Longrightarrow> wf cfg s \<and> balance s \<and> drained s"
  by (erule exec_invariant [where P = "\<lambda>s. wf cfg s \<and> balance s \<and> drained s"])
     (auto intro: wf_init wf_fire balance_init balance_fire drained_init drained_fire)

lemma sum_pinc_done: "list_all (\<lambda>p. p = PDone) ps \<Longrightarrow> sum_list (map pinc ps) = 0"
  by (induction ps) auto

lemma sum_inflight_done: "list_all (\<lambda>m. m = MDone) ms \<Longrightarrow> sum_list (map inflight ms) = 0"
  by (induction ms) auto


subsection \<open>The error register\<close>

lemma err_inv_init: "err_inv init"
  by (simp add: err_inv_def init_def)

lemma err_inv_reader: "err_inv s \<Longrightarrow> readLines_step cfg k s = Some s' \<Longrightarrow> err_inv s'"
  unfolding err_inv_def readLines_step_def
  by (auto simp: add_read_def panic_def first_error_append
        split: rpc.splits if_splits option.splits)

lemma err_inv_parser: "err_inv s \<Longrightarrow> parseStream_step cfg i s = Some s' \<Longrightarrow> err_inv s'"
  unfolding err_inv_def parseStream_step_def
  by (auto simp: add_parsed_def panic_def set_parser_def SetError_def Error_def Let_def
        first_error_append split: ppc.splits if_splits list.splits sum.splits option.splits)

lemma err_inv_mutator: "err_inv s \<Longrightarrow> handleNQuads_step cfg j r s = Some s' \<Longrightarrow> err_inv s'"
  unfolding err_inv_def handleNQuads_step_def
  by (auto simp: add_processed_def add_ignored_def panic_def set_mutator_def SetError_def
        Error_def first_error_append
        split: mpc.splits if_splits list.splits sum.splits option.splits)

lemma err_inv_coord: "err_inv s \<Longrightarrow> LoadEdges_step cfg s = Some s' \<Longrightarrow> err_inv s'"
  unfolding err_inv_def LoadEdges_step_def
  by (auto simp: panic_def split: cpc.splits if_splits)

lemma err_inv_fire: "err_inv s \<Longrightarrow> fire cfg a s = Some s' \<Longrightarrow> err_inv s'"
  unfolding fire_def
  by (cases a) (auto intro: err_inv_reader err_inv_parser err_inv_mutator err_inv_coord
        split: if_splits)

lemma err_inv_reachable: "exec cfg acts init = Some s \<Longrightarrow> err_inv s"
  by (erule exec_invariant [where P = err_inv]) (auto intro: err_inv_init err_inv_fire)

lemma err_sticky_fire: "fire cfg a s = Some s' \<Longrightarrow> err s = Some e \<Longrightarrow> err s' = Some e"
  unfolding fire_def readLines_step_def parseStream_step_def handleNQuads_step_def
    LoadEdges_step_def
  by (cases a)
     (auto simp: add_read_def add_parsed_def add_processed_def add_ignored_def panic_def
        set_parser_def set_mutator_def SetError_def Error_def Let_def
        split: rpc.splits ppc.splits mpc.splits cpc.splits if_splits list.splits sum.splits)

lemma err_sticky: "exec cfg acts s = Some s' \<Longrightarrow> err s = Some e \<Longrightarrow> err s' = Some e"
  by (erule exec_invariant [where P = "\<lambda>t. err t = Some e"]) (auto intro: err_sticky_fire)

lemma fold_SetError_set: "err s = Some e \<Longrightarrow> err (fold SetError xs s) = Some e"
  by (induction xs arbitrary: s) (auto simp: SetError_def)

lemma fold_SetError_first:
  "err s = None \<Longrightarrow> err (fold SetError (map Some es) s) = (case es of [] \<Rightarrow> None | e # _ \<Rightarrow> Some e)"
  by (cases es) (auto simp: SetError_def fold_SetError_set)


subsection \<open>The reader\<close>










subsection \<open>The leases\<close>

lemma cycles_append: "cycles xs \<Longrightarrow> cycles ys \<Longrightarrow> cycles (xs @ ys)"
  by (induction xs rule: cycles.induct) auto

lemma lease_ok_init: "lease_ok j init"
  by (simp add: lease_ok_def init_def store_calls_def)

lemma lease_ok_cong:
  assumes "lease_ok j s"
    and "store_calls j (trace s') = store_calls j (trace s)"
    and "(if j < length (mutators s') then open_calls j (mutators s' ! j) else []) =
         (if j < length (mutators s) then open_calls j (mutators s ! j) else [])"
  shows "lease_ok j s'"
  using assms unfolding lease_ok_def by simp

lemma lease_ok_reader: "lease_ok j s \<Longrightarrow> readLines_step cfg k s = Some s' \<Longrightarrow> lease_ok j s'"
  apply (erule lease_ok_cong)
  unfolding readLines_step_def
  by (auto simp: add_read_def panic_def store_calls_def split: rpc.splits if_splits)

lemma lease_ok_parser: "lease_ok j s \<Longrightarrow> parseStream_step cfg i s = Some s' \<Longrightarrow> lease_ok j s'"
  apply (erule lease_ok_cong)
  unfolding parseStream_step_def
  by (auto simp: add_parsed_def panic_def set_parser_def SetError_def Error_def Let_def
        store_calls_def split: ppc.splits if_splits list.splits sum.splits)

lemma lease_ok_coord: "lease_ok j s \<Longrightarrow> LoadEdges_step cfg s = Some s' \<Longrightarrow> lease_ok j s'"
  apply (erule lease_ok_cong)
  unfolding LoadEdges_step_def
  by (auto simp: panic_def nth_append split: cpc.splits if_splits)

lemma lease_ok_other:
  assumes "lease_ok j s" and "handleNQuads_step cfg i r s = Some s'" and "i \<noteq> j"
    and "i < length (mutators s)"
  shows "lease_ok j s'"
  using assms(1)
  apply (rule lease_ok_cong)
  using assms(2-) unfolding handleNQuads_step_def
  by (auto simp: add_processed_def add_ignored_def panic_def set_mutator_def SetError_def
        Error_def store_calls_def split: mpc.splits if_splits list.splits sum.splits)

lemma lease_ok_self:
  assumes "lease_ok j s" and "handleNQuads_step cfg j r s = Some s'"
    and "j < length (mutators s)"
  shows "lease_ok j s'"
proof -
  from assms(1,3) obtain cs where cs: "cycles cs"
    and tr: "store_calls j (trace s) = cs @ open_calls j (mutators s ! j)"
    by (auto simp: lease_ok_def)
  show ?thesis
  proof (cases "mutators s ! j")
    case (MDecr e)
    let ?k = "Key (Entity e) (Attribute e)"
    from MDecr assms(2,3) have s': "s' = set_mutator j MInc (s\<lparr>trace := trace s @ [Decr j ?k]\<rparr>)"
      by (simp add: handleNQuads_step_def)
    have "cycles (cs @ [GetOrCreate j ?k, AddMutationWithIndex j ?k e, Decr j ?k])"
      using cs by (intro cycles_append) auto
    moreover have "store_calls j (trace s') =
        (cs @ [GetOrCreate j ?k, AddMutationWithIndex j ?k e, Decr j ?k]) @ []"
      using tr MDecr by (simp add: s' set_mutator_def store_calls_append) (simp add: store_calls_def)
    ultimately show ?thesis
      using assms(3) unfolding lease_ok_def
      by (intro exI [of _ "cs @ [GetOrCreate j ?k, AddMutationWithIndex j ?k e, Decr j ?k]"])
         (simp add: s' set_mutator_def)
  next
    case (MGetOrCreate e)
    with assms(2,3) cs tr show ?thesis
      unfolding lease_ok_def handleNQuads_step_def
      by (intro exI [of _ cs]) (auto simp: set_mutator_def store_calls_def)
  next
    case (MAddMutation e)
    with assms(2,3) cs tr show ?thesis
      unfolding lease_ok_def handleNQuads_step_def
      by (intro exI [of _ cs]) (auto simp: set_mutator_def store_calls_def)
  next
    case MRecv
    with assms(2,3) cs tr show ?thesis
      unfolding lease_ok_def handleNQuads_step_def
      by (intro exI [of _ cs]) (auto simp: set_mutator_def split: list.splits if_splits)
  next
    case (MCheck nq)
    with assms(2,3) cs tr show ?thesis
      unfolding lease_ok_def handleNQuads_step_def
      by (intro exI [of _ cs]) (auto simp: set_mutator_def panic_def split: if_splits)
  next
    case MIgnore
    with assms(2,3) cs tr show ?thesis
      unfolding lease_ok_def handleNQuads_step_def
      by (intro exI [of _ cs]) (auto simp: set_mutator_def add_ignored_def)
  next
    case (MToEdge nq)
    with assms(2,3) cs tr show ?thesis
      unfolding lease_ok_def handleNQuads_step_def
      by (intro exI [of _ cs]) (auto simp: set_mutator_def split: sum.splits if_splits)
  next
    case (MSetError x)
    with assms(2,3) cs tr show ?thesis
      unfolding lease_ok_def handleNQuads_step_def
      by (intro exI [of _ cs]) (auto simp: set_mutator_def SetError_def store_calls_def)
  next
    case MInc
    with assms(2,3) cs tr show ?thesis
      unfolding lease_ok_def handleNQuads_step_def
      by (intro exI [of _ cs]) (auto simp: set_mutator_def add_processed_def)
  next
    case MDone
    with assms(2) show ?thesis by (simp add: handleNQuads_step_def)
  qed
qed

lemma lease_ok_fire: "lease_ok j s \<Longrightarrow> fire cfg a s = Some s' \<Longrightarrow> lease_ok j s'"
  unfolding fire_def
  by (cases a) (auto intro: lease_ok_reader lease_ok_parser lease_ok_coord lease_ok_self
        lease_ok_other split: if_splits)

lemma lease_ok_reachable: "exec cfg acts init = Some s \<Longrightarrow> lease_ok j s"
  by (erule exec_invariant [where P = "lease_ok j"]) (auto intro: lease_ok_init lease_ok_fire)


subsection \<open>Panics and retries\<close>

lemma no_div_crash_fire:
  assumes "numInstances cfg \<noteq> 0" and "no_div_crash s" and "fire cfg a s = Some s'"
  shows "no_div_crash s'"
proof (cases a)
  case (Rd k)
  with assms(3) have "readLines_step cfg k s = Some s'"
    by (simp add: fire_def split: if_splits)
  from reader_crash [OF this] assms(2) show ?thesis by (auto simp: no_div_crash_def)
next
  case (Pa i)
  with assms(3) have "parseStream_step cfg i s = Some s'"
    by (simp add: fire_def split: if_splits)
  from parser_crash [OF this] assms(2) show ?thesis by (auto simp: no_div_crash_def)
next
  case (Mu j r)
  with assms(3) have "handleNQuads_step cfg j r s = Some s'"
    by (simp add: fire_def split: if_splits)
  from mutator_crash [OF this] assms(1,2) show ?thesis by (auto simp: no_div_crash_def)
next
  case Co
  with assms(3) have "LoadEdges_step cfg s = Some s'"
    by (simp add: fire_def split: if_splits)
  from coord_crash [OF this] assms(2) show ?thesis by (auto simp: no_div_crash_def)
qed

lemma no_div_crash_reachable:
  "numInstances cfg \<noteq> 0 \<Longrightarrow> exec cfg acts init = Some s \<Longrightarrow> no_div_crash s"
  by (erule exec_invariant [where P = no_div_crash])
     (simp add: no_div_crash_def init_def, erule (2) no_div_crash_fire)

subsection \<open>One worker among the others\<close>

lemma mine_append: "mine j (xs @ ys) = mine j xs @ mine j ys"
  by (induction xs rule: mine.induct) auto

lemma other_step_keeps:
  assumes "fire cfg a s = Some t" and "mine j [a] = []" and "j < length (mutators s)"
  shows "mutators t ! j = mutators s ! j \<and> j < length (mutators t)"
proof (cases a)
  case (Rd k)
  with assms show ?thesis
    by (auto simp: fire_def readLines_step_def add_read_def panic_def
          split: if_splits rpc.splits)
next
  case (Pa i)
  with assms show ?thesis
    by (auto simp: fire_def parseStream_step_def add_parsed_def panic_def set_parser_def
          SetError_def Error_def Let_def split: if_splits ppc.splits list.splits sum.splits)
next
  case (Mu i r)
  with assms have "i \<noteq> j" by (auto split: if_splits)
  with Mu assms show ?thesis
    by (auto simp: fire_def handleNQuads_step_def add_processed_def add_ignored_def panic_def
          set_mutator_def SetError_def Error_def
          split: if_splits mpc.splits list.splits sum.splits)
next
  case Co
  with assms show ?thesis
    by (auto simp: fire_def LoadEdges_step_def panic_def nth_append
          split: if_splits cpc.splits)
qed

lemma own_step_local:
  assumes "fire cfg (Mu j r) s = Some t" and "mstep_local (mutators s ! j) r = Some m"
  shows "mutators t ! j = m \<and> j < length (mutators t)"
  using assms
  by (cases "mutators s ! j"; cases r)
     (auto simp: fire_def handleNQuads_step_def add_processed_def add_ignored_def
        set_mutator_def SetError_def split: if_splits)

lemma track:
  "exec cfg acts s = Some t \<Longrightarrow> j < length (mutators s) \<Longrightarrow>
     mrun_local (mutators s ! j) (mine j acts) = Some m \<Longrightarrow>
     mutators t ! j = m \<and> j < length (mutators t)"
proof (induction acts arbitrary: s)
  case Nil
  then show ?case by simp
next
  case (Cons a acts)
  from Cons.prems(1) obtain u where u: "fire cfg a s = Some u" and r: "exec cfg acts u = Some t"
    by (auto split: option.splits)
  show ?case
  proof (cases "mine j [a] = []")
    case True
    from other_step_keeps [OF u True Cons.prems(2)]
    have k: "mutators u ! j = mutators s ! j" "j < length (mutators u)" by simp_all
    from True have "mine j (a # acts) = mine j acts"
      using mine_append [of j "[a]" acts] by simp
    with Cons.prems(3) k have "mrun_local (mutators u ! j) (mine j acts) = Some m" by simp
    from Cons.IH [OF r k(2) this] show ?thesis .
  next
    case False
    then obtain x where a: "a = Mu j x"
      by (cases a) (auto split: if_splits)
    with Cons.prems(3) obtain m' where m': "mstep_local (mutators s ! j) x = Some m'"
      and rest: "mrun_local m' (mine j acts) = Some m"
      by (auto split: option.splits)
    from own_step_local [OF u [unfolded a] m']
    have k: "mutators u ! j = m'" "j < length (mutators u)" by simp_all
    with rest have "mrun_local (mutators u ! j) (mine j acts) = Some m" by simp
    from Cons.IH [OF r k(2) this] show ?thesis .
  qed
qed

lemma mrun_local_retry:
  "mrun_local (MToEdge nq) (replicate k (Inl E_TMP_ERROR) @ rs) = mrun_local (MToEdge nq) rs"
  by (induction k) auto

subsection \<open>The reader runs to the end\<close>













section \<open>The claims\<close>

lemmas step_defs =
  fire_def LoadEdges_step_def readLines_step_def parseStream_step_def handleNQuads_step_def
  set_parser_def set_mutator_def add_read_def add_parsed_def add_processed_def
  add_ignored_def panic_def SetError_def Error_def chan_cap_def Trim_def blanks_def Let_def
  Key_def init_def

lemmas demo_defs =
  scenarioA_def scenarioB_def scenarioC_def no_mutators_def zero_instances_def
  small_window_def parse_demo_def nq_abc_def edge_abc_def ok_def tmp_def

lemma run_to_check_A: "exec scenarioA run_to_check init = Some s_check"
  by (simp add: run_to_check_def s_check_def step_defs demo_defs)

lemma run_to_check_B: "exec scenarioB run_to_check init = Some s_check"
  by (simp add: run_to_check_def s_check_def step_defs demo_defs)

lemma full_run_A: "exec scenarioA full_run init = Some final_A"
  by (simp add: full_run_def final_A_def step_defs demo_defs)

lemma err_prefix_C: "exec scenarioC err_prefix init = Some s_err"
  by (simp add: err_prefix_def s_err_def step_defs demo_defs)

lemma err_rest_C: "exec scenarioC err_rest s_err = Some final_C"
  by (simp add: err_rest_def s_err_def final_C_def step_defs demo_defs)

subsection \<open>C1: the sharding rule\<close>

lemma update_inject:
  assumes "j < length xs" and "xs[j := a] = xs[j := b]"
  shows "a = b"
proof -
  from assms(2) have "xs[j := a] ! j = xs[j := b] ! j" by simp
  with assms(1) show ?thesis by simp
qed

lemma check_step:
  assumes "numInstances c \<noteq> 0" and "j < length (mutators s)"
    and "mutators s ! j = MCheck nq" and "crashed s = None" and "err s = None"
  shows "fire c (Mu j r) s =
     Some (s\<lparr>mutators := (mutators s)
        [j := if Fingerprint64 c (Predicate nq) mod numInstances c \<noteq> instanceIdx c
              then MIgnore else MToEdge nq]\<rparr>)"
  using assms by (simp add: fire_def handleNQuads_step_def Error_def set_mutator_def)

text \<open>
  Claim C1. A mutation worker \<open>j\<close> has received the triple \<open>nq\<close> and stands before the
  check of line 205, with \<open>numInstances\<close> at least 1. If no error is set, the worker
  goes on to \<open>ToEdge\<close> exactly when the fingerprint of the predicate modulo
  \<open>numInstances\<close> equals \<open>instanceIdx\<close>, and exactly one index below \<open>numInstances\<close>
  makes it do so. For any other index the worker goes to line 210, and whatever the
  other goroutines do before its next step, an error set in the meantime included,
  that step adds exactly one to \<open>ignored\<close>, takes the worker back to the head of its
  loop and changes nothing else. If an error is set at the check the worker exits and
  the triple changes no counter.
\<close>

theorem sharding_rule:
  assumes "numInstances cfg \<noteq> 0" and "j < length (mutators s)"
    and "mutators s ! j = MCheck nq" and "crashed s = None"
  shows
    "(err s = None \<longrightarrow>
        (\<exists>!i. i < numInstances cfg \<and>
            fire (cfg\<lparr>instanceIdx := i\<rparr>) (Mu j r) s
              = Some (s\<lparr>mutators := (mutators s)[j := MToEdge nq]\<rparr>))
        \<and> (Fingerprint64 cfg (Predicate nq) mod numInstances cfg = instanceIdx cfg \<longrightarrow>
              fire cfg (Mu j r) s = Some (s\<lparr>mutators := (mutators s)[j := MToEdge nq]\<rparr>))
        \<and> (Fingerprint64 cfg (Predicate nq) mod numInstances cfg \<noteq> instanceIdx cfg \<longrightarrow>
              fire cfg (Mu j r) s = Some (s\<lparr>mutators := (mutators s)[j := MIgnore]\<rparr>)
              \<and> (\<forall>others t r'.
                    mine j others = [] \<and> exec cfg (Mu j r # others) s = Some t
                    \<and> crashed t = None \<longrightarrow>
                      fire cfg (Mu j r') t
                        = Some (t\<lparr>ctr := (ctr t)\<lparr>ignored := ignored (ctr t) + 1\<rparr>,
                                  mutators := (mutators t)[j := MRecv]\<rparr>))))
     \<and> (err s \<noteq> None \<longrightarrow>
          fire cfg (Mu j r) s = Some (s\<lparr>mutators := (mutators s)[j := MDone]\<rparr>))"
proof (intro conjI impI allI)
  assume e: "err s = None"
  let ?h = "Fingerprint64 cfg (Predicate nq) mod numInstances cfg"
  have step: "fire (cfg\<lparr>instanceIdx := i\<rparr>) (Mu j r) s =
      Some (s\<lparr>mutators := (mutators s)[j := if ?h \<noteq> i then MIgnore else MToEdge nq]\<rparr>)" for i
    using check_step [of "cfg\<lparr>instanceIdx := i\<rparr>" j s nq r] assms e by simp
  from assms(1) have "0 < numInstances cfg" by (simp add: word_neq_0_conv)
  then have lt: "?h < numInstances cfg" by (rule word_mod_less_divisor)
  show "\<exists>!i. i < numInstances cfg \<and>
      fire (cfg\<lparr>instanceIdx := i\<rparr>) (Mu j r) s
        = Some (s\<lparr>mutators := (mutators s)[j := MToEdge nq]\<rparr>)"
  proof (rule ex1I [of _ ?h])
    show "?h < numInstances cfg \<and>
        fire (cfg\<lparr>instanceIdx := ?h\<rparr>) (Mu j r) s
          = Some (s\<lparr>mutators := (mutators s)[j := MToEdge nq]\<rparr>)"
      using lt step [of ?h] by simp
  next
    fix i
    assume i: "i < numInstances cfg \<and>
        fire (cfg\<lparr>instanceIdx := i\<rparr>) (Mu j r) s
          = Some (s\<lparr>mutators := (mutators s)[j := MToEdge nq]\<rparr>)"
    show "i = ?h"
    proof (rule ccontr)
      assume "i \<noteq> ?h"
      with step [of i] i
      have "s\<lparr>mutators := (mutators s)[j := MIgnore]\<rparr>
          = s\<lparr>mutators := (mutators s)[j := MToEdge nq]\<rparr>"
        by auto
      then have "mutators (s\<lparr>mutators := (mutators s)[j := MIgnore]\<rparr>)
          = mutators (s\<lparr>mutators := (mutators s)[j := MToEdge nq]\<rparr>)"
        by (rule arg_cong)
      then have "(mutators s)[j := MIgnore] = (mutators s)[j := MToEdge nq]" by simp
      from update_inject [OF assms(2) this] show False by simp
    qed
  qed
next
  assume "err s = None"
    and "Fingerprint64 cfg (Predicate nq) mod numInstances cfg = instanceIdx cfg"
  with check_step [of cfg j s nq r] assms
  show "fire cfg (Mu j r) s = Some (s\<lparr>mutators := (mutators s)[j := MToEdge nq]\<rparr>)"
    by simp
next
  assume "err s = None"
    and "Fingerprint64 cfg (Predicate nq) mod numInstances cfg \<noteq> instanceIdx cfg"
  with check_step [of cfg j s nq r] assms
  show "fire cfg (Mu j r) s = Some (s\<lparr>mutators := (mutators s)[j := MIgnore]\<rparr>)"
    by simp
next
  fix others t r'
  assume e: "err s = None"
    and h: "Fingerprint64 cfg (Predicate nq) mod numInstances cfg \<noteq> instanceIdx cfg"
    and o: "mine j others = [] \<and> exec cfg (Mu j r # others) s = Some t \<and> crashed t = None"
  let ?u = "s\<lparr>mutators := (mutators s)[j := MIgnore]\<rparr>"
  from check_step [of cfg j s nq r] assms e h
  have f: "fire cfg (Mu j r) s = Some ?u" by simp
  with o have run: "exec cfg others ?u = Some t" by simp
  from assms(2) have u: "j < length (mutators ?u)" "mutators ?u ! j = MIgnore" by simp_all
  from o u have "mrun_local (mutators ?u ! j) (mine j others) = Some MIgnore" by simp
  from track [OF run u(1) this]
  have "mutators t ! j = MIgnore" and "j < length (mutators t)" by simp_all
  with o show "fire cfg (Mu j r') t
      = Some (t\<lparr>ctr := (ctr t)\<lparr>ignored := ignored (ctr t) + 1\<rparr>,
                mutators := (mutators t)[j := MRecv]\<rparr>)"
    by (simp add: fire_def handleNQuads_step_def set_mutator_def add_ignored_def)
next
  assume "err s \<noteq> None"
  with assms show "fire cfg (Mu j r) s = Some (s\<lparr>mutators := (mutators s)[j := MDone]\<rparr>)"
    by (simp add: fire_def handleNQuads_step_def Error_def set_mutator_def)
qed

theorem sharding_rule_witness:
  "exec scenarioD to_checkD init = Some s_checkD
   \<and> (\<exists>!i. i < numInstances scenarioD \<and>
         fire (scenarioD\<lparr>instanceIdx := i\<rparr>) (Mu 0 ok) s_checkD
           = Some (s_checkD\<lparr>mutators := [MToEdge nq_abc]\<rparr>))
   \<and> fire (scenarioD\<lparr>instanceIdx := 0\<rparr>) (Mu 0 ok) s_checkD
       = Some (s_checkD\<lparr>mutators := [MToEdge nq_abc]\<rparr>)
   \<and> fire scenarioD (Mu 0 ok) s_checkD = Some (s_checkD\<lparr>mutators := [MIgnore]\<rparr>)
   \<and> exec scenarioD [Mu 0 ok, Pa 0, Pa 0, Pa 0] s_checkD
       = Some (s_checkD\<lparr>err := Some (Err ''parse''), input := [''a b c .''],
                 parsers := [PDone, PRecv], mutators := [MIgnore],
                 trace := trace s_checkD @ [SetErrorCall (Err ''parse'')]\<rparr>)
   \<and> fire scenarioD (Mu 0 ok)
        (s_checkD\<lparr>err := Some (Err ''parse''), input := [''a b c .''],
                 parsers := [PDone, PRecv], mutators := [MIgnore],
                 trace := trace s_checkD @ [SetErrorCall (Err ''parse'')]\<rparr>)
       = Some (s_checkD\<lparr>ctr := \<lparr>read = 3, parsed = 1, processed = 0, ignored = 1\<rparr>,
                 err := Some (Err ''parse''), input := [''a b c .''],
                 parsers := [PDone, PRecv], mutators := [MRecv],
                 trace := trace s_checkD @ [SetErrorCall (Err ''parse'')]\<rparr>)
   \<and> exec scenarioC (err_prefix @ [Mu 0 ok]) init
       = Some (s_err\<lparr>cnq := [], mutators := [MCheck nq_abc]\<rparr>)
   \<and> fire scenarioC (Mu 0 ok) (s_err\<lparr>cnq := [], mutators := [MCheck nq_abc]\<rparr>)
       = Some (s_err\<lparr>cnq := [], mutators := [MDone]\<rparr>)"
proof -
  let ?t = "s_checkD\<lparr>err := Some (Err ''parse''), input := [''a b c .''],
                 parsers := [PDone, PRecv], mutators := [MIgnore],
                 trace := trace s_checkD @ [SetErrorCall (Err ''parse'')]\<rparr>"
  let ?c = "s_err\<lparr>cnq := [], mutators := [MCheck nq_abc]\<rparr>"
  have r: "exec scenarioD to_checkD init = Some s_checkD"
    by (simp add: to_checkD_def s_checkD_def scenarioD_def step_defs demo_defs)
  have n: "numInstances scenarioD \<noteq> 0" "numInstances (scenarioD\<lparr>instanceIdx := 0\<rparr>) \<noteq> 0"
    "numInstances scenarioC \<noteq> 0"
    by (simp_all add: scenarioD_def demo_defs)
  have j: "0 < length (mutators s_checkD)" "mutators s_checkD ! 0 = MCheck nq_abc"
    "crashed s_checkD = None" "err s_checkD = None"
    by (simp_all add: s_checkD_def)
  have h: "Fingerprint64 scenarioD (Predicate nq_abc) mod numInstances scenarioD
      \<noteq> instanceIdx scenarioD"
    "Fingerprint64 (scenarioD\<lparr>instanceIdx := 0\<rparr>) (Predicate nq_abc)
        mod numInstances (scenarioD\<lparr>instanceIdx := 0\<rparr>)
      = instanceIdx (scenarioD\<lparr>instanceIdx := 0\<rparr>)"
    by (simp_all add: scenarioD_def demo_defs)
  have o: "mine 0 [Pa 0, Pa 0, Pa 0] = [] \<and>
      exec scenarioD (Mu 0 ok # [Pa 0, Pa 0, Pa 0]) s_checkD = Some ?t \<and> crashed ?t = None"
    by (simp add: s_checkD_def scenarioD_def step_defs demo_defs)
  have c: "exec scenarioC (err_prefix @ [Mu 0 ok]) init = Some ?c"
    using err_prefix_C
    by (simp add: exec_append) (simp add: s_err_def step_defs demo_defs)
  have k: "0 < length (mutators ?c)" "mutators ?c ! 0 = MCheck nq_abc"
    "crashed ?c = None" "err ?c \<noteq> None"
    by (simp_all add: s_err_def)
  note a = sharding_rule [OF n(1) j(1-3), of ok]
  note b = sharding_rule [OF n(2) j(1-3), of ok]
  note d = sharding_rule [OF n(3) k(1-3), of ok]
  from a j(4) have 1: "\<exists>!i. i < numInstances scenarioD \<and>
         fire (scenarioD\<lparr>instanceIdx := i\<rparr>) (Mu 0 ok) s_checkD
           = Some (s_checkD\<lparr>mutators := [MToEdge nq_abc]\<rparr>)"
    by (simp add: s_checkD_def)
  from b j(4) h(2) have 2: "fire (scenarioD\<lparr>instanceIdx := 0\<rparr>) (Mu 0 ok) s_checkD
       = Some (s_checkD\<lparr>mutators := [MToEdge nq_abc]\<rparr>)"
    by (simp add: s_checkD_def)
  from a j(4) h(1) have 3: "fire scenarioD (Mu 0 ok) s_checkD
       = Some (s_checkD\<lparr>mutators := [MIgnore]\<rparr>)"
    by (simp add: s_checkD_def)
  from a j(4) h(1) o have "fire scenarioD (Mu 0 ok) ?t
      = Some (?t\<lparr>ctr := (ctr ?t)\<lparr>ignored := ignored (ctr ?t) + 1\<rparr>,
                mutators := (mutators ?t)[0 := MRecv]\<rparr>)"
    by blast
  then have 4: "fire scenarioD (Mu 0 ok) ?t
       = Some (s_checkD\<lparr>ctr := \<lparr>read = 3, parsed = 1, processed = 0, ignored = 1\<rparr>,
                 err := Some (Err ''parse''), input := [''a b c .''],
                 parsers := [PDone, PRecv], mutators := [MRecv],
                 trace := trace s_checkD @ [SetErrorCall (Err ''parse'')]\<rparr>)"
    by (simp add: s_checkD_def)
  from d k(4) have 5: "fire scenarioC (Mu 0 ok) ?c = Some (s_err\<lparr>cnq := [], mutators := [MDone]\<rparr>)"
    by (simp add: s_err_def)
  from o have 6: "exec scenarioD [Mu 0 ok, Pa 0, Pa 0, Pa 0] s_checkD = Some ?t" by simp
  from r 1 2 3 6 4 c 5 show ?thesis by simp
qed

subsection \<open>C2: the counters at a clean return\<close>

text \<open>
  Claim C2 as stated fails when the flag \<open>maxroutines\<close> is 0: no mutation worker is
  started, \<open>wg.Wait()\<close> returns at once, and \<open>LoadEdges\<close> returns a nil error while the
  parsed triple is still in \<open>s.cnq\<close>. On the single line \<open>a b c .\<close> the run below
  returns \<open>(0, nil)\<close> with \<open>parsed = 1\<close> and \<open>processed = ignored = 0\<close>.
\<close>

theorem no_mutators_counterexample:
  "map_option coord (exec no_mutators nomut_run init) = Some (CReturned 0 None)
   \<and> map_option ctr (exec no_mutators nomut_run init)
       = Some \<lparr>read = 1, parsed = 1, processed = 0, ignored = 0\<rparr>
   \<and> (1 :: uint64) \<noteq> 0 + 0"
  by (simp add: nomut_run_def step_defs demo_defs)

text \<open>
  Claim C2, amended: with at least one mutation worker (\<open>maxroutines\<close> at least 1),
  every run of \<open>LoadEdges\<close> that returns a nil error ends with
  \<open>parsed = processed + ignored\<close>.
\<close>

theorem parsed_eq_processed_plus_ignored:
  assumes "exec cfg acts init = Some s"
    and "coord s = CReturned n None"
    and "0 < maxRoutines cfg"
  shows "parsed (ctr s) = processed (ctr s) + ignored (ctr s)"
proof -
  from assms(1) have w: "wf cfg s" and b: "balance s" and d: "drained s"
    using inv_reachable by blast+
  from w assms(2) have e: "err s = None"
    and pd: "list_all (\<lambda>p. p = PDone) (parsers s)"
    and md: "list_all (\<lambda>m. m = MDone) (mutators s)"
    and len: "int (length (mutators s)) = maxRoutines cfg"
    by (auto simp: wf_def)
  from len assms(3) obtain m ms where ms: "mutators s = m # ms"
    by (cases "mutators s") auto
  with md have "MDone \<in> set (mutators s)" by simp
  with d e have "cnq s = []" by (simp add: drained_def)
  with b e pd md show ?thesis
    by (simp add: balance_def sum_pinc_done sum_inflight_done)
qed

theorem parsed_eq_processed_plus_ignored_witness:
  "exec scenarioA full_run init = Some final_A
   \<and> coord final_A = CReturned 1 None
   \<and> 0 < maxRoutines scenarioA
   \<and> parsed (ctr final_A) = processed (ctr final_A) + ignored (ctr final_A)"
proof -
  have r: "exec scenarioA full_run init = Some final_A" by (rule full_run_A)
  have c: "coord final_A = CReturned 1 None" by (simp add: final_A_def)
  have m: "0 < maxRoutines scenarioA" by (simp add: scenarioA_def)
  from parsed_eq_processed_plus_ignored [OF r c m] r c m show ?thesis by simp
qed

subsection \<open>C3: the error register\<close>

lemma concat_replicate_snoc: "concat (replicate n blk) @ blk = blk @ concat (replicate n blk)"
  by (induction n) auto

lemma exec_rounds:
  assumes "\<And>i. i < n \<Longrightarrow> exec cfg blk (f i) = Some (f (Suc i))"
  shows "exec cfg (concat (replicate n blk)) (f 0) = Some (f n)"
  using assms
proof (induction n)
  case 0
  then show ?case by simp
next
  case (Suc n)
  have "concat (replicate (Suc n) blk) = concat (replicate n blk) @ blk"
    by (simp add: concat_replicate_snoc)
  moreover from Suc have "exec cfg (concat (replicate n blk)) (f 0) = Some (f n)" by simp
  moreover from Suc.prems have "exec cfg blk (f n) = Some (f (Suc n))" by simp
  ultimately show ?case by (simp add: exec_append)
qed

lemmas dl_defs =
  deadlock_cfg_def dl_fill_def dl_rest_def dl_drain_def dl_stuck_def round_rest_def
  round_drain_def list_update_same_conv replicate_append_same Cons_replicate_eq

lemma dl_boot: "exec deadlock_cfg [Co, Co, Co, Co, Co] init = Some (dl_fill 0)"
  by (simp add: dl_defs step_defs demo_defs)

lemma dl_fill_step:
  "i < 1000 \<Longrightarrow> exec deadlock_cfg [Rd 0] (dl_fill i) = Some (dl_fill (Suc i))"
  by (simp add: dl_defs step_defs demo_defs)

lemma dl_fill_end: "exec deadlock_cfg [Rd 0] (dl_fill 1000) = Some (dl_rest MRecv 0 0)"
  by (simp add: dl_defs step_defs demo_defs)

lemma dl_rest_round:
  "n < 9002 \<Longrightarrow> c < 10000 \<Longrightarrow>
     exec deadlock_cfg round_rest (dl_rest m n c) = Some (dl_rest m (Suc n) (Suc c))"
  by (simp add: dl_defs step_defs demo_defs)

lemma dl_take: "exec deadlock_cfg [Mu 0 ok, Mu 0 ok] (dl_rest MRecv 1 1)
    = Some (dl_rest (MToEdge nq_abc) 1 0)"
  by (simp add: dl_defs step_defs demo_defs)

lemma dl_rest_end:
  "exec deadlock_cfg [Rd 0] (dl_rest (MToEdge nq_abc) 9002 9001) = Some (dl_drain 0)"
  by (simp add: dl_defs step_defs demo_defs)

lemma dl_drain_round:
  "i < 999 \<Longrightarrow> exec deadlock_cfg round_drain (dl_drain i) = Some (dl_drain (Suc i))"
  by (simp add: dl_defs step_defs demo_defs)

lemma dl_end:
  "exec deadlock_cfg [Rd 0, Pa 0, Pa 0, Rd 0, Mu 0 (Inl (Err ''uid'')), Mu 0 ok] (dl_drain 999)
     = Some dl_stuck"
  by (simp add: dl_defs step_defs demo_defs)

lemma dl_stuck_blocked: "fire deadlock_cfg a dl_stuck = None"
  by (cases a) (simp_all add: dl_defs step_defs demo_defs)

lemma dl_run: "exec deadlock_cfg deadlock_run init = Some dl_stuck"
proof -
  have a: "exec deadlock_cfg (concat (replicate 1000 [Rd 0])) (dl_fill 0) = Some (dl_fill 1000)"
    by (rule exec_rounds) (rule dl_fill_step)
  have "exec deadlock_cfg (concat (replicate 9001 round_rest))
      ((\<lambda>i. dl_rest (MToEdge nq_abc) (Suc i) i) 0)
      = Some ((\<lambda>i. dl_rest (MToEdge nq_abc) (Suc i) i) 9001)"
    by (rule exec_rounds) (simp add: dl_rest_round)
  then have b: "exec deadlock_cfg (concat (replicate 9001 round_rest))
      (dl_rest (MToEdge nq_abc) 1 0) = Some (dl_rest (MToEdge nq_abc) 9002 9001)"
    by simp
  have c: "exec deadlock_cfg (concat (replicate 999 round_drain)) (dl_drain 0)
      = Some (dl_drain 999)"
    by (rule exec_rounds) (rule dl_drain_round)
  have d: "exec deadlock_cfg round_rest (dl_rest MRecv 0 0) = Some (dl_rest MRecv 1 1)"
    using dl_rest_round [of 0 0 MRecv] by simp
  show ?thesis
    unfolding deadlock_run_def
    by (simp only: exec_append dl_boot a dl_fill_end d dl_take b dl_rest_end c dl_end
          option.case)
qed

lemma first_error_kept:
  "err init = None
   \<and> (err t = None \<longrightarrow> err (fold SetError (map Some (e # es)) t) = Some e)
   \<and> (exec cfg acts init = Some s \<longrightarrow>
        err s = first_error (trace s)
        \<and> (\<forall>x more s'. err s = Some x \<and> exec cfg more s = Some s' \<longrightarrow> err s' = Some x)
        \<and> (\<forall>n x. coord s = CReturned n x \<longrightarrow>
              x = first_error (trace s) \<and> n = processed (ctr s)))"
proof (intro conjI impI allI)
  show "err init = None" by (simp add: init_def)
next
  assume "err t = None"
  then show "err (fold SetError (map Some (e # es)) t) = Some e"
    using fold_SetError_first [of t "e # es"] by simp
next
  assume "exec cfg acts init = Some s"
  then show "err s = first_error (trace s)"
    using err_inv_reachable by (simp add: err_inv_def)
next
  fix x more s'
  assume "err s = Some x \<and> exec cfg more s = Some s'"
  then show "err s' = Some x" using err_sticky by blast
next
  fix n x
  assume r: "exec cfg acts init = Some s" and c: "coord s = CReturned n x"
  from r have "wf cfg s" by (rule wf_reachable)
  with c have "x = err s" by (simp add: wf_def)
  with r show "x = first_error (trace s)"
    using err_inv_reachable by (simp add: err_inv_def)
next
  fix n x
  assume r: "exec cfg acts init = Some s" and c: "coord s = CReturned n x"
  from r have "wf cfg s" by (rule wf_reachable)
  with c show "n = processed (ctr s)" by (simp add: wf_def)
qed

text \<open>
  Claim C3 does not hold of the code: \<open>LoadEdges\<close> does not always return. The register
  part of the claim holds (\<open>first_error_kept\<close>): in every run the register holds the
  argument of the first \<open>SetError\<close> call and is never overwritten, and a return of
  \<open>LoadEdges\<close> carries that error and the counter \<open>processed\<close>. But on 10002
  well-formed lines with one parse worker and one mutation worker the schedule
  \<open>deadlock_run\<close> ends in \<open>dl_stuck\<close>: the mutation worker has set the error \<open>uid\<close> at
  line 221 and exited, \<open>s.cnq\<close> holds 10000 triples, the parse worker is at its send of
  line 193 and the coordinator at \<open>pwg.Wait()\<close> of line 271. No goroutine has a step in
  that state, so no continuation of the run reaches the return of line 278.
\<close>

theorem load_edges_deadlock:
  "exec deadlock_cfg deadlock_run init = Some dl_stuck
   \<and> err dl_stuck = Some (Err ''uid'')
   \<and> first_error (trace dl_stuck) = Some (Err ''uid'')
   \<and> length (cnq dl_stuck) = chan_cap
   \<and> parsers dl_stuck = [PSend nq_abc] \<and> mutators dl_stuck = [MDone]
   \<and> coord dl_stuck = CWaitParse \<and> crashed dl_stuck = None
   \<and> fire deadlock_cfg a dl_stuck = None
   \<and> exec deadlock_cfg (deadlock_run @ a # acts) init = None"
proof -
  have "first_error (replicate n (Emit l) @ evs) = first_error evs" for n l evs
    by (induction n) simp_all
  then have "first_error (trace dl_stuck) = Some (Err ''uid'')"
    by (simp add: dl_stuck_def)
  moreover have "exec deadlock_cfg (deadlock_run @ a # acts) init = None"
    by (simp add: exec_append dl_run dl_stuck_blocked)
  ultimately show ?thesis
    by (simp add: dl_run dl_stuck_blocked) (simp add: dl_stuck_def chan_cap_def)
qed

subsection \<open>C4: the order of shutdown\<close>

text \<open>
  Claim C4. In every state of every run: if \<open>s.cnq\<close> is closed, all \<open>numr\<close> parse workers
  have been started and have exited; if the coordinator is past \<open>wg.Wait()\<close>, the channel
  is closed and all \<open>maxRoutines\<close> mutation workers have exited; no worker has ever sent
  on the closed channel; and once \<open>LoadEdges\<close> has returned \<open>n\<close>, the counter
  \<open>processed\<close> is \<open>n\<close> and stays \<open>n\<close> whatever the remaining goroutines do.
\<close>

theorem shutdown_order:
  assumes "exec cfg acts init = Some s"
  shows
    "(cnq_closed s \<longrightarrow>
        length (parsers s) = numr cfg \<and> list_all (\<lambda>p. p = PDone) (parsers s))
     \<and> (coord s = CStop \<or> (\<exists>n e. coord s = CReturned n e) \<longrightarrow>
          cnq_closed s \<and> int (length (mutators s)) = maxRoutines cfg
          \<and> list_all (\<lambda>m. m = MDone) (mutators s))
     \<and> crashed s \<noteq> Some PanicSendOnClosed
     \<and> (\<forall>n e more s'. coord s = CReturned n e \<and> exec cfg more s = Some s' \<longrightarrow>
          processed (ctr s) = n \<and> processed (ctr s') = n \<and> coord s' = CReturned n e)"
proof -
  from assms have w: "wf cfg s" by (rule wf_reachable)
  have a: "cnq_closed s \<longrightarrow>
      length (parsers s) = numr cfg \<and> list_all (\<lambda>p. p = PDone) (parsers s)"
    using w unfolding wf_def by (cases "coord s") auto
  have b: "coord s = CStop \<or> (\<exists>n e. coord s = CReturned n e) \<longrightarrow>
      cnq_closed s \<and> int (length (mutators s)) = maxRoutines cfg
      \<and> list_all (\<lambda>m. m = MDone) (mutators s)"
    using w unfolding wf_def by (cases "coord s") auto
  have c: "crashed s \<noteq> Some PanicSendOnClosed"
    using w by (simp add: wf_def)
  have d: "processed (ctr s) = n \<and> processed (ctr s') = n \<and> coord s' = CReturned n e"
    if "coord s = CReturned n e \<and> exec cfg more s = Some s'" for n e more s'
  proof -
    from that have c': "coord s' = CReturned n e" using coord_returned_exec by blast
    from that assms have "exec cfg (acts @ more) init = Some s'" by (simp add: exec_append)
    then have "wf cfg s'" by (rule wf_reachable)
    with c' w that show ?thesis by (simp add: wf_def)
  qed
  from a b c d show ?thesis by blast
qed

theorem shutdown_order_witness:
  "exec scenarioA full_run init = Some final_A
   \<and> cnq_closed final_A \<and> parsers final_A = [PDone] \<and> mutators final_A = [MDone]
   \<and> coord final_A = CReturned 1 None \<and> processed (ctr final_A) = 1
   \<and> crashed final_A \<noteq> Some PanicSendOnClosed"
proof -
  have r: "exec scenarioA full_run init = Some final_A" by (rule full_run_A)
  have c: "coord final_A = CReturned 1 None \<and> exec scenarioA [] final_A = Some final_A"
    by (simp add: final_A_def)
  have l: "parsers final_A = [PDone] \<and> mutators final_A = [MDone]"
    by (simp add: final_A_def)
  from shutdown_order [OF r] c
  have "cnq_closed final_A" and "crashed final_A \<noteq> Some PanicSendOnClosed"
    and "processed (ctr final_A) = 1"
    by blast+
  with r c l show ?thesis by simp
qed

subsection \<open>C5: the reader loses and duplicates no line\<close>



subsection \<open>C6: the retry loop\<close>

lemma own_pc:
  assumes "j < length (mutators s)" and "mutators s ! j = MCheck nq"
    and "crashed s = None" and "err s = None" and "numInstances cfg \<noteq> 0"
    and "Fingerprint64 cfg (Predicate nq) mod numInstances cfg = instanceIdx cfg"
    and "exec cfg (Mu j rz # acts) s = Some t"
    and "mine j acts = replicate k (Inl E_TMP_ERROR) @ rs"
    and "mrun_local (MToEdge nq) rs = Some m"
  shows "mutators t ! j = m \<and> j < length (mutators t)"
proof -
  let ?u = "s\<lparr>mutators := (mutators s)[j := MToEdge nq]\<rparr>"
  from assms(1-6) have "fire cfg (Mu j rz) s = Some ?u"
    by (simp add: fire_def handleNQuads_step_def Error_def set_mutator_def)
  with assms(7) have run: "exec cfg acts ?u = Some t" by simp
  from assms(1) have u: "j < length (mutators ?u)" by simp
  from assms(1,8,9) have "mrun_local (mutators ?u ! j) (mine j acts) = Some m"
    by (simp add: mrun_local_retry)
  from track [OF run u this] show ?thesis .
qed

text \<open>
  Claim C6, as stated, fails: two lines, two mutation workers, both triples owned. The
  \<open>ToEdge\<close> call of worker 0 fails with the permanent error \<open>first\<close>, which
  is stored; the call of worker 1 fails once with \<open>E_TMP_ERROR\<close> and then with the
  permanent error \<open>second\<close>. Worker 1 calls \<open>SetError\<close> with it and exits, but
  the register keeps \<open>first\<close>, which is what \<open>LoadEdges\<close> returns: the permanent failure
  of worker 1 is not recorded in the error register.
\<close>

theorem later_error_not_recorded_counterexample:
  "Err ''second'' \<noteq> E_TMP_ERROR
   \<and> exec two_mutators clash_start init = Some s_clash
   \<and> exec two_mutators clash_mid s_clash
       = Some (s_held\<lparr>mutators := [MDone, MSetError (Err ''second'')]\<rparr>)
   \<and> exec two_mutators clash_end (s_held\<lparr>mutators := [MDone, MSetError (Err ''second'')]\<rparr>)
       = Some (s_held\<lparr>cnq_closed := True, mutators := [MDone, MDone],
                 coord := CReturned 0 (Some (Err ''first'')),
                 trace := trace s_held @ [SetErrorCall (Err ''second'')]\<rparr>)
   \<and> err (s_held\<lparr>cnq_closed := True, mutators := [MDone, MDone],
                 coord := CReturned 0 (Some (Err ''first'')),
                 trace := trace s_held @ [SetErrorCall (Err ''second'')]\<rparr>)
       = Some (Err ''first'')"
  by (simp add: clash_start_def clash_mid_def clash_end_def s_clash_def s_held_def
        two_mutators_def step_defs demo_defs)

text \<open>
  Claim C6, amended. A mutation worker \<open>j\<close> has received a triple that this instance
  owns and passes the check of line 205 with the register empty; \<open>acts\<close> is any
  schedule of the whole program after that, in which the other goroutines run as they
  like and may set the error register. The results that \<open>ToEdge\<close> gives worker \<open>j\<close> in
  \<open>acts\<close> decide where it stands. After \<open>k\<close> transient failures it is still in the loop
  of lines 215 to 227: a further transient failure leaves the state as it is, an edge
  takes it to line 229, any other error to line 221. After \<open>k\<close> transient failures and
  an edge its next four steps are \<open>GetOrCreate\<close>, \<open>AddMutationWithIndex\<close> with that
  edge, \<open>decr\<close> and the addition of exactly one to \<open>processed\<close>, each changing nothing
  else, whatever the register holds by then; the worker is then back at the head of its
  loop. After \<open>k\<close> transient failures and a permanent error \<open>x\<close> its next step calls
  \<open>SetError\<close> with \<open>x\<close>, which stores \<open>x\<close> unless the register already holds an error,
  and the worker exits: it has no further step, and no counter has changed.
\<close>

theorem retry_converges:
  assumes "j < length (mutators s)" and "mutators s ! j = MCheck nq"
    and "crashed s = None" and "err s = None" and "numInstances cfg \<noteq> 0"
    and "Fingerprint64 cfg (Predicate nq) mod numInstances cfg = instanceIdx cfg"
    and "exec cfg (Mu j rz # acts) s = Some t" and "crashed t = None"
  shows
    "(mine j acts = replicate k (Inl E_TMP_ERROR) \<longrightarrow>
        fire cfg (Mu j (Inl E_TMP_ERROR)) t = Some t
        \<and> fire cfg (Mu j (Inr e)) t
            = Some (t\<lparr>mutators := (mutators t)[j := MGetOrCreate e]\<rparr>)
        \<and> (x \<noteq> E_TMP_ERROR \<longrightarrow>
              fire cfg (Mu j (Inl x)) t
                = Some (t\<lparr>mutators := (mutators t)[j := MSetError x]\<rparr>)))
     \<and> (mine j acts = replicate k (Inl E_TMP_ERROR) @ [Inr e] \<longrightarrow>
          fire cfg (Mu j r) t
            = Some (t\<lparr>mutators := (mutators t)[j := MAddMutation e],
                      trace := trace t @ [GetOrCreate j (Key (Entity e) (Attribute e))]\<rparr>))
     \<and> (mine j acts = replicate k (Inl E_TMP_ERROR) @ [Inr e, ra] \<longrightarrow>
          fire cfg (Mu j r) t
            = Some (t\<lparr>mutators := (mutators t)[j := MDecr e],
                      trace := trace t @
                        [AddMutationWithIndex j (Key (Entity e) (Attribute e)) e]\<rparr>))
     \<and> (mine j acts = replicate k (Inl E_TMP_ERROR) @ [Inr e, ra, rb] \<longrightarrow>
          fire cfg (Mu j r) t
            = Some (t\<lparr>mutators := (mutators t)[j := MInc],
                      trace := trace t @ [Decr j (Key (Entity e) (Attribute e))]\<rparr>))
     \<and> (mine j acts = replicate k (Inl E_TMP_ERROR) @ [Inr e, ra, rb, rc] \<longrightarrow>
          fire cfg (Mu j r) t
            = Some (t\<lparr>ctr := (ctr t)\<lparr>processed := processed (ctr t) + 1\<rparr>,
                      mutators := (mutators t)[j := MRecv]\<rparr>))
     \<and> (x \<noteq> E_TMP_ERROR \<and> mine j acts = replicate k (Inl E_TMP_ERROR) @ [Inl x] \<longrightarrow>
          fire cfg (Mu j r) t
            = Some (t\<lparr>err := (if err t = None then Some x else err t),
                      mutators := (mutators t)[j := MDone],
                      trace := trace t @ [SetErrorCall x]\<rparr>))
     \<and> (x \<noteq> E_TMP_ERROR \<and> mine j acts = replicate k (Inl E_TMP_ERROR) @ [Inl x, ra] \<longrightarrow>
          fire cfg (Mu j r) t = None)"
proof (intro conjI impI)
  note pc = own_pc [OF assms(1-7)]
  assume m: "mine j acts = replicate k (Inl E_TMP_ERROR)"
  from pc [of k "[]" "MToEdge nq"] m
  have p: "mutators t ! j = MToEdge nq" "j < length (mutators t)" by simp_all
  from p have "(mutators t)[j := MToEdge nq] = mutators t"
    using list_update_id [of "mutators t" j] by simp
  with p assms(8) show "fire cfg (Mu j (Inl E_TMP_ERROR)) t = Some t"
    by (simp add: fire_def handleNQuads_step_def set_mutator_def)
  from p assms(8) show "fire cfg (Mu j (Inr e)) t
      = Some (t\<lparr>mutators := (mutators t)[j := MGetOrCreate e]\<rparr>)"
    by (simp add: fire_def handleNQuads_step_def set_mutator_def)
  assume "x \<noteq> E_TMP_ERROR"
  with p assms(8) show "fire cfg (Mu j (Inl x)) t
      = Some (t\<lparr>mutators := (mutators t)[j := MSetError x]\<rparr>)"
    by (simp add: fire_def handleNQuads_step_def set_mutator_def)
next
  assume m: "mine j acts = replicate k (Inl E_TMP_ERROR) @ [Inr e]"
  from own_pc [OF assms(1-7) m, of "MGetOrCreate e"]
  have p: "mutators t ! j = MGetOrCreate e" "j < length (mutators t)" by simp_all
  with assms(8) show "fire cfg (Mu j r) t
      = Some (t\<lparr>mutators := (mutators t)[j := MAddMutation e],
                trace := trace t @ [GetOrCreate j (Key (Entity e) (Attribute e))]\<rparr>)"
    by (simp add: fire_def handleNQuads_step_def set_mutator_def)
next
  assume m: "mine j acts = replicate k (Inl E_TMP_ERROR) @ [Inr e, ra]"
  from own_pc [OF assms(1-7) m, of "MAddMutation e"]
  have p: "mutators t ! j = MAddMutation e" "j < length (mutators t)" by simp_all
  with assms(8) show "fire cfg (Mu j r) t
      = Some (t\<lparr>mutators := (mutators t)[j := MDecr e],
                trace := trace t @
                  [AddMutationWithIndex j (Key (Entity e) (Attribute e)) e]\<rparr>)"
    by (simp add: fire_def handleNQuads_step_def set_mutator_def)
next
  assume m: "mine j acts = replicate k (Inl E_TMP_ERROR) @ [Inr e, ra, rb]"
  from own_pc [OF assms(1-7) m, of "MDecr e"]
  have p: "mutators t ! j = MDecr e" "j < length (mutators t)" by simp_all
  with assms(8) show "fire cfg (Mu j r) t
      = Some (t\<lparr>mutators := (mutators t)[j := MInc],
                trace := trace t @ [Decr j (Key (Entity e) (Attribute e))]\<rparr>)"
    by (simp add: fire_def handleNQuads_step_def set_mutator_def)
next
  assume m: "mine j acts = replicate k (Inl E_TMP_ERROR) @ [Inr e, ra, rb, rc]"
  from own_pc [OF assms(1-7) m, of MInc]
  have p: "mutators t ! j = MInc" "j < length (mutators t)" by simp_all
  with assms(8) show "fire cfg (Mu j r) t
      = Some (t\<lparr>ctr := (ctr t)\<lparr>processed := processed (ctr t) + 1\<rparr>,
                mutators := (mutators t)[j := MRecv]\<rparr>)"
    by (simp add: fire_def handleNQuads_step_def set_mutator_def add_processed_def)
next
  assume "x \<noteq> E_TMP_ERROR \<and> mine j acts = replicate k (Inl E_TMP_ERROR) @ [Inl x]"
  then have x: "x \<noteq> E_TMP_ERROR" and m: "mine j acts = replicate k (Inl E_TMP_ERROR) @ [Inl x]"
    by simp_all
  from x own_pc [OF assms(1-7) m, of "MSetError x"]
  have p: "mutators t ! j = MSetError x" "j < length (mutators t)" by simp_all
  with assms(8) show "fire cfg (Mu j r) t
      = Some (t\<lparr>err := (if err t = None then Some x else err t),
                mutators := (mutators t)[j := MDone],
                trace := trace t @ [SetErrorCall x]\<rparr>)"
    by (simp add: fire_def handleNQuads_step_def set_mutator_def SetError_def)
next
  assume "x \<noteq> E_TMP_ERROR \<and> mine j acts = replicate k (Inl E_TMP_ERROR) @ [Inl x, ra]"
  then have x: "x \<noteq> E_TMP_ERROR" and m: "mine j acts = replicate k (Inl E_TMP_ERROR) @ [Inl x, ra]"
    by simp_all
  from x own_pc [OF assms(1-7) m, of MDone]
  have p: "mutators t ! j = MDone" "j < length (mutators t)" by simp_all
  with assms(8) show "fire cfg (Mu j r) t = None"
    by (simp add: fire_def handleNQuads_step_def)
qed

theorem retry_converges_witness:
  "exec two_mutators (butlast clash_start) init = Some s_check1
   \<and> exec two_mutators (Mu 1 ok # held_run) s_check1 = Some s_held
   \<and> err s_held = Some (Err ''first'')
   \<and> fire two_mutators (Mu 1 (Inl E_TMP_ERROR)) s_held = Some s_held
   \<and> fire two_mutators (Mu 1 (Inr edge_abc)) s_held
       = Some (s_held\<lparr>mutators := [MDone, MGetOrCreate edge_abc]\<rparr>)
   \<and> fire two_mutators (Mu 1 (Inl (Err ''second''))) s_held
       = Some (s_held\<lparr>mutators := [MDone, MSetError (Err ''second'')]\<rparr>)
   \<and> fire two_mutators (Mu 1 ok) (s_held\<lparr>mutators := [MDone, MGetOrCreate edge_abc]\<rparr>)
       = Some (s_held\<lparr>mutators := [MDone, MAddMutation edge_abc],
                 trace := trace s_held @ [GetOrCreate 1 (Key 1 ''b'')]\<rparr>)
   \<and> fire two_mutators (Mu 1 ok)
        (s_held\<lparr>mutators := [MDone, MAddMutation edge_abc],
                 trace := trace s_held @ [GetOrCreate 1 (Key 1 ''b'')]\<rparr>)
       = Some (s_held\<lparr>mutators := [MDone, MDecr edge_abc],
                 trace := trace s_held @ [GetOrCreate 1 (Key 1 ''b''),
                   AddMutationWithIndex 1 (Key 1 ''b'') edge_abc]\<rparr>)
   \<and> fire two_mutators (Mu 1 ok)
        (s_held\<lparr>mutators := [MDone, MDecr edge_abc],
                 trace := trace s_held @ [GetOrCreate 1 (Key 1 ''b''),
                   AddMutationWithIndex 1 (Key 1 ''b'') edge_abc]\<rparr>)
       = Some (s_held\<lparr>mutators := [MDone, MInc],
                 trace := trace s_held @ [GetOrCreate 1 (Key 1 ''b''),
                   AddMutationWithIndex 1 (Key 1 ''b'') edge_abc, Decr 1 (Key 1 ''b'')]\<rparr>)
   \<and> fire two_mutators (Mu 1 ok)
        (s_held\<lparr>mutators := [MDone, MInc],
                 trace := trace s_held @ [GetOrCreate 1 (Key 1 ''b''),
                   AddMutationWithIndex 1 (Key 1 ''b'') edge_abc, Decr 1 (Key 1 ''b'')]\<rparr>)
       = Some (s_held\<lparr>ctr := \<lparr>read = 2, parsed = 2, processed = 1, ignored = 0\<rparr>,
                 mutators := [MDone, MRecv],
                 trace := trace s_held @ [GetOrCreate 1 (Key 1 ''b''),
                   AddMutationWithIndex 1 (Key 1 ''b'') edge_abc, Decr 1 (Key 1 ''b'')]\<rparr>)
   \<and> fire two_mutators (Mu 1 ok) (s_held\<lparr>mutators := [MDone, MSetError (Err ''second'')]\<rparr>)
       = Some (s_held\<lparr>mutators := [MDone, MDone],
                 trace := trace s_held @ [SetErrorCall (Err ''second'')]\<rparr>)
   \<and> fire two_mutators (Mu 1 ok)
        (s_held\<lparr>mutators := [MDone, MDone],
                 trace := trace s_held @ [SetErrorCall (Err ''second'')]\<rparr>) = None
   \<and> fire two_mutators (Mu 1 ok) (s_clash\<lparr>mutators := [MToEdge nq_abc, MSetError (Err ''second'')]\<rparr>)
       = Some (s_clash\<lparr>err := Some (Err ''second''), mutators := [MToEdge nq_abc, MDone],
                 trace := trace s_clash @ [SetErrorCall (Err ''second'')]\<rparr>)"
proof -
  let ?E = "Err ''second''"
  let ?g = "[GetOrCreate 1 (Key 1 ''b'')]"
  let ?a = "[GetOrCreate 1 (Key 1 ''b''), AddMutationWithIndex 1 (Key 1 ''b'') edge_abc]"
  let ?d = "[GetOrCreate 1 (Key 1 ''b''), AddMutationWithIndex 1 (Key 1 ''b'') edge_abc,
             Decr 1 (Key 1 ''b'')]"
  let ?t1 = "s_held\<lparr>mutators := [MDone, MGetOrCreate edge_abc]\<rparr>"
  let ?t2 = "s_held\<lparr>mutators := [MDone, MAddMutation edge_abc], trace := trace s_held @ ?g\<rparr>"
  let ?t3 = "s_held\<lparr>mutators := [MDone, MDecr edge_abc], trace := trace s_held @ ?a\<rparr>"
  let ?t4 = "s_held\<lparr>mutators := [MDone, MInc], trace := trace s_held @ ?d\<rparr>"
  let ?u1 = "s_held\<lparr>mutators := [MDone, MSetError ?E]\<rparr>"
  let ?u2 = "s_held\<lparr>mutators := [MDone, MDone], trace := trace s_held @ [SetErrorCall ?E]\<rparr>"
  let ?v1 = "s_clash\<lparr>mutators := [MToEdge nq_abc, MSetError ?E]\<rparr>"
  note defs = s_check1_def s_held_def s_clash_def held_run_def two_mutators_def
    step_defs demo_defs
  have start: "exec two_mutators (butlast clash_start) init = Some s_check1"
    by (simp add: clash_start_def defs)
  have pre: "1 < length (mutators s_check1)" "mutators s_check1 ! 1 = MCheck nq_abc"
    "crashed s_check1 = None" "err s_check1 = None" "numInstances two_mutators \<noteq> 0"
    "Fingerprint64 two_mutators (Predicate nq_abc) mod numInstances two_mutators
       = instanceIdx two_mutators"
    by (simp_all add: defs)
  note inst = retry_converges [OF pre, where rz = ok and k = 1 and e = edge_abc
      and x = "?E" and r = ok and ra = ok and rb = ok and rc = ok]
  have r0: "exec two_mutators (Mu 1 ok # held_run) s_check1 = Some s_held"
    "crashed s_held = None" "mine 1 held_run = replicate 1 (Inl E_TMP_ERROR)"
    by (simp_all add: defs)
  have r1: "exec two_mutators (Mu 1 ok # held_run @ [Mu 1 ok]) s_check1 = Some ?t1"
    "crashed ?t1 = None"
    "mine 1 (held_run @ [Mu 1 ok]) = replicate 1 (Inl E_TMP_ERROR) @ [Inr edge_abc]"
    by (simp_all add: defs)
  have r2: "exec two_mutators (Mu 1 ok # held_run @ [Mu 1 ok, Mu 1 ok]) s_check1 = Some ?t2"
    "crashed ?t2 = None"
    "mine 1 (held_run @ [Mu 1 ok, Mu 1 ok]) = replicate 1 (Inl E_TMP_ERROR) @ [Inr edge_abc, ok]"
    by (simp_all add: defs)
  have r3: "exec two_mutators (Mu 1 ok # held_run @ [Mu 1 ok, Mu 1 ok, Mu 1 ok]) s_check1
      = Some ?t3"
    "crashed ?t3 = None"
    "mine 1 (held_run @ [Mu 1 ok, Mu 1 ok, Mu 1 ok])
      = replicate 1 (Inl E_TMP_ERROR) @ [Inr edge_abc, ok, ok]"
    by (simp_all add: defs)
  have r4: "exec two_mutators (Mu 1 ok # held_run @ [Mu 1 ok, Mu 1 ok, Mu 1 ok, Mu 1 ok]) s_check1
      = Some ?t4"
    "crashed ?t4 = None"
    "mine 1 (held_run @ [Mu 1 ok, Mu 1 ok, Mu 1 ok, Mu 1 ok])
      = replicate 1 (Inl E_TMP_ERROR) @ [Inr edge_abc, ok, ok, ok]"
    by (simp_all add: defs)
  have q1: "exec two_mutators (Mu 1 ok # held_run @ [Mu 1 (Inl ?E)]) s_check1 = Some ?u1"
    "crashed ?u1 = None"
    "?E \<noteq> E_TMP_ERROR \<and> mine 1 (held_run @ [Mu 1 (Inl ?E)])
        = replicate 1 (Inl E_TMP_ERROR) @ [Inl ?E]"
    by (simp_all add: defs)
  have q2: "exec two_mutators (Mu 1 ok # held_run @ [Mu 1 (Inl ?E), Mu 1 ok]) s_check1 = Some ?u2"
    "crashed ?u2 = None"
    "?E \<noteq> E_TMP_ERROR \<and> mine 1 (held_run @ [Mu 1 (Inl ?E), Mu 1 ok])
        = replicate 1 (Inl E_TMP_ERROR) @ [Inl ?E, ok]"
    by (simp_all add: defs)
  have q3: "exec two_mutators (Mu 1 ok # [Mu 1 tmp, Mu 1 (Inl ?E)]) s_check1 = Some ?v1"
    "crashed ?v1 = None"
    "?E \<noteq> E_TMP_ERROR \<and> mine 1 [Mu 1 tmp, Mu 1 (Inl ?E)]
        = replicate 1 (Inl E_TMP_ERROR) @ [Inl ?E]"
    by (simp_all add: defs)
  have e: "err s_held = Some (Err ''first'')" by (simp add: defs)
  from inst [OF r0(1,2)] r0(3)
  have 1: "fire two_mutators (Mu 1 (Inl E_TMP_ERROR)) s_held = Some s_held"
    and 2: "fire two_mutators (Mu 1 (Inr edge_abc)) s_held = Some ?t1"
    and 3: "fire two_mutators (Mu 1 (Inl ?E)) s_held = Some ?u1"
    by (simp_all add: s_held_def)
  from inst [OF r1(1,2)] r1(3) have 4: "fire two_mutators (Mu 1 ok) ?t1 = Some ?t2"
    by (simp add: s_held_def edge_abc_def)
  from inst [OF r2(1,2)] r2(3) have 5: "fire two_mutators (Mu 1 ok) ?t2 = Some ?t3"
    by (simp add: s_held_def edge_abc_def)
  from inst [OF r3(1,2)] r3(3) have 6: "fire two_mutators (Mu 1 ok) ?t3 = Some ?t4"
    by (simp add: s_held_def edge_abc_def)
  from inst [OF r4(1,2)] r4(3)
  have 7: "fire two_mutators (Mu 1 ok) ?t4
      = Some (s_held\<lparr>ctr := \<lparr>read = 2, parsed = 2, processed = 1, ignored = 0\<rparr>,
                 mutators := [MDone, MRecv], trace := trace s_held @ ?d\<rparr>)"
    by (simp add: s_held_def s_clash_def)
  from inst [OF q1(1,2)] q1(3) have 8: "fire two_mutators (Mu 1 ok) ?u1 = Some ?u2"
    by (simp add: s_held_def)
  from inst [OF q2(1,2)] q2(3) have 9: "fire two_mutators (Mu 1 ok) ?u2 = None"
    by simp
  from inst [OF q3(1,2)] q3(3)
  have 10: "fire two_mutators (Mu 1 ok) ?v1
      = Some (s_clash\<lparr>err := Some ?E, mutators := [MToEdge nq_abc, MDone],
                 trace := trace s_clash @ [SetErrorCall ?E]\<rparr>)"
    by (simp add: s_clash_def)
  from start r0(1) e 1 2 3 4 5 6 7 8 9 10 show ?thesis by simp
qed

subsection \<open>C7: the counters during a run\<close>

text \<open>
  Claim C7 does not hold of the code: \<open>parseStream\<close> sends the triple on \<open>s.cnq\<close>
  (line 193) before it counts it as parsed (line 194), so a mutation worker can count
  the triple as processed first. On scenario A the run below reaches a state with
  \<open>parsed = 0\<close> and \<open>processed = 1\<close>, where the \<open>pending\<close> field that \<open>printCounters\<close>
  computes as \<open>parsed - ignored - processed\<close> wraps around to \<open>2^64 - 1\<close>.
\<close>

theorem processed_before_parsed:
  "map_option ctr (exec scenarioA race_run init)
     = Some \<lparr>read = 1, parsed = 0, processed = 1, ignored = 0\<rparr>
   \<and> map_option (\<lambda>s. pending (ctr s)) (exec scenarioA race_run init)
       = Some 18446744073709551615
   \<and> map_option parsers (exec scenarioA race_run init) = Some [PInc]
   \<and> \<not> ((1 :: uint64) + 0 \<le> 0)"
  by (simp add: race_run_def run_to_check_def pending_def step_defs demo_defs)

subsection \<open>C8: the lease on a posting list\<close>

text \<open>
  Claim C8. In every state of every run, the store calls of each mutation worker are a
  sequence of complete rounds \<open>GetOrCreate\<close>, \<open>AddMutationWithIndex\<close>, \<open>Decr\<close> on one
  key, followed only by the round the worker is in the middle of: a worker holds a
  lease only between \<open>GetOrCreate\<close> and the \<open>Decr\<close> that directly follows the one
  mutation call, every lease is released once, and no \<open>Decr\<close> is called without its own
  \<open>GetOrCreate\<close>. When \<open>LoadEdges\<close> has returned, every round is complete.
\<close>

theorem lease_released_once:
  assumes "exec cfg acts init = Some s"
  shows
    "(\<exists>cs. cycles cs \<and>
        store_calls j (trace s) =
          cs @ (if j < length (mutators s) then open_calls j (mutators s ! j) else []))
     \<and> ((\<exists>n e. coord s = CReturned n e) \<longrightarrow> cycles (store_calls j (trace s)))"
proof -
  from assms have l: "lease_ok j s" by (rule lease_ok_reachable)
  from assms have w: "wf cfg s" by (rule wf_reachable)
  have "cycles (store_calls j (trace s))" if "coord s = CReturned n e" for n e
  proof -
    from w that have "list_all (\<lambda>m. m = MDone) (mutators s)" by (simp add: wf_def)
    then have "j < length (mutators s) \<Longrightarrow> mutators s ! j = MDone"
      by (simp add: list_all_length)
    with l show ?thesis by (auto simp: lease_ok_def split: if_splits)
  qed
  with l show ?thesis by (auto simp: lease_ok_def)
qed

theorem lease_released_once_witness:
  "exec scenarioA full_run init = Some final_A
   \<and> coord final_A = CReturned 1 None
   \<and> store_calls 0 (trace final_A)
       = [GetOrCreate 0 (1, ''b''), AddMutationWithIndex 0 (1, ''b'') edge_abc,
          Decr 0 (1, ''b'')]
   \<and> cycles (store_calls 0 (trace final_A))"
proof -
  have c: "coord final_A = CReturned 1 None" by (simp add: final_A_def)
  have t: "store_calls 0 (trace final_A)
       = [GetOrCreate 0 (1, ''b''), AddMutationWithIndex 0 (1, ''b'') edge_abc,
          Decr 0 (1, ''b'')]"
    by (simp add: final_A_def store_calls_def)
  from lease_released_once [OF full_run_A, of 0] c
  have "cycles (store_calls 0 (trace final_A))" by blast
  with full_run_A c t show ?thesis by simp
qed

subsection \<open>C9: the modulo by \<open>numInstances\<close>\<close>

text \<open>
  Claim C9 as stated fails: a mutation worker that receives a triple reads the error
  register first (line 205) and returns before the modulo when an error is set. In
  scenario C with \<open>numInstances = 0\<close> the mutation worker receives the first triple
  after the parse error of the second line has been set; it exits, nothing panics and
  \<open>LoadEdges\<close> returns the parse error.
\<close>

theorem divide_by_zero_counterexample:
  "numInstances zero_instances = 0
   \<and> map_option mutators
        (exec zero_instances (err_prefix @ [Pa 1, Pa 1, Co, Co, Mu 0 ok]) init)
       = Some [MCheck nq_abc]
   \<and> map_option crashed (exec zero_instances (err_prefix @ err_rest) init) = Some None
   \<and> map_option coord (exec zero_instances (err_prefix @ err_rest) init)
       = Some (CReturned 0 (Some (Err ''parse'')))"
  by (simp add: err_prefix_def err_rest_def step_defs demo_defs)

text \<open>
  Claim C9, amended: with \<open>numInstances = 0\<close>, every mutation worker that has received
  a triple and finds the error register still empty panics on the modulo (with an error
  set it exits instead); with \<open>numInstances\<close> at least 1 no run ever panics on it.
\<close>

theorem divide_by_zero_amended:
  "(numInstances cfg = 0 \<and> j < length (mutators s) \<and> mutators s ! j = MCheck nq
      \<and> crashed s = None \<and> err s = None \<longrightarrow>
        fire cfg (Mu j r) s = Some (panic PanicDivideByZero s))
   \<and> (numInstances cfg = 0 \<and> j < length (mutators s) \<and> mutators s ! j = MCheck nq
      \<and> crashed s = None \<and> err s \<noteq> None \<longrightarrow>
        fire cfg (Mu j r) s = Some (set_mutator j MDone s))
   \<and> (numInstances cfg \<noteq> 0 \<and> exec cfg acts init = Some s' \<longrightarrow>
        crashed s' \<noteq> Some PanicDivideByZero)"
proof (intro conjI impI)
  assume "numInstances cfg = 0 \<and> j < length (mutators s) \<and> mutators s ! j = MCheck nq
      \<and> crashed s = None \<and> err s = None"
  then show "fire cfg (Mu j r) s = Some (panic PanicDivideByZero s)"
    by (simp add: fire_def handleNQuads_step_def Error_def)
next
  assume "numInstances cfg = 0 \<and> j < length (mutators s) \<and> mutators s ! j = MCheck nq
      \<and> crashed s = None \<and> err s \<noteq> None"
  then show "fire cfg (Mu j r) s = Some (set_mutator j MDone s)"
    by (auto simp: fire_def handleNQuads_step_def Error_def)
next
  assume "numInstances cfg \<noteq> 0 \<and> exec cfg acts init = Some s'"
  then show "crashed s' \<noteq> Some PanicDivideByZero"
    using no_div_crash_reachable by (auto simp: no_div_crash_def)
qed

theorem divide_by_zero_amended_witness:
  "exec zero_instances zero_check_run init = Some s_check0
   \<and> fire zero_instances (Mu 0 ok) s_check0 = Some (panic PanicDivideByZero s_check0)
   \<and> exec zero_instances (err_prefix @ [Pa 1, Pa 1, Co, Co, Mu 0 ok]) init
       = Some (final_C\<lparr>mutators := [MCheck nq_abc], coord := CWaitMut\<rparr>)
   \<and> fire zero_instances (Mu 0 ok) (final_C\<lparr>mutators := [MCheck nq_abc], coord := CWaitMut\<rparr>)
       = Some (final_C\<lparr>mutators := [MDone], coord := CWaitMut\<rparr>)
   \<and> exec scenarioA full_run init = Some final_A
   \<and> crashed final_A \<noteq> Some PanicDivideByZero"
proof -
  let ?t = "final_C\<lparr>mutators := [MCheck nq_abc], coord := CWaitMut\<rparr>"
  have r: "exec zero_instances zero_check_run init = Some s_check0"
    by (simp add: zero_check_run_def s_check0_def step_defs demo_defs)
  have h: "numInstances zero_instances = 0 \<and> 0 < length (mutators s_check0)
      \<and> mutators s_check0 ! 0 = MCheck nq_abc \<and> crashed s_check0 = None
      \<and> err s_check0 = None"
    by (simp add: s_check0_def demo_defs)
  have t: "exec zero_instances (err_prefix @ [Pa 1, Pa 1, Co, Co, Mu 0 ok]) init = Some ?t"
    by (simp add: err_prefix_def final_C_def step_defs demo_defs)
  have k: "numInstances zero_instances = 0 \<and> 0 < length (mutators ?t)
      \<and> mutators ?t ! 0 = MCheck nq_abc \<and> crashed ?t = None \<and> err ?t \<noteq> None"
    by (simp add: final_C_def demo_defs)
  have n: "numInstances scenarioA \<noteq> 0 \<and> exec scenarioA full_run init = Some final_A"
    using full_run_A by (simp add: demo_defs)
  from divide_by_zero_amended [of zero_instances 0 s_check0 nq_abc ok] h
  have 1: "fire zero_instances (Mu 0 ok) s_check0 = Some (panic PanicDivideByZero s_check0)"
    by blast
  from divide_by_zero_amended [of zero_instances 0 ?t nq_abc ok] k
  have "fire zero_instances (Mu 0 ok) ?t = Some (set_mutator 0 MDone ?t)"
    by blast
  then have 2: "fire zero_instances (Mu 0 ok) ?t
      = Some (final_C\<lparr>mutators := [MDone], coord := CWaitMut\<rparr>)"
    by (simp add: set_mutator_def final_C_def)
  from divide_by_zero_amended [of scenarioA _ _ _ _ full_run final_A] n
  have 3: "crashed final_A \<noteq> Some PanicDivideByZero"
    by blast
  from r 1 t 2 n 3 show ?thesis by simp
qed

subsection \<open>C10: the error register is read after the receive\<close>

text \<open>
  Claim C10. Once the error register is set, a parse worker at the head of its loop
  still receives the next line of \<open>s.input\<close>, and its next step exits: the line is gone
  from the channel, and no counter, the channel \<open>s.cnq\<close> and the log have not changed.
  Likewise a mutation worker still receives the next triple of \<open>s.cnq\<close> and exits; the
  triple is counted neither as processed nor as ignored.
\<close>

theorem error_checked_after_receive:
  "(i < length (parsers s) \<and> parsers s ! i = PRecv \<and> input s = l # ls
      \<and> err s \<noteq> None \<and> crashed s = None \<longrightarrow>
        exec cfg [Pa i, Pa i] s = Some (set_parser i PDone (s\<lparr>input := ls\<rparr>))
        \<and> ctr (set_parser i PDone (s\<lparr>input := ls\<rparr>)) = ctr s)
   \<and> (j < length (mutators s) \<and> mutators s ! j = MRecv \<and> cnq s = nq # rest
      \<and> err s \<noteq> None \<and> crashed s = None \<longrightarrow>
        exec cfg [Mu j r, Mu j r'] s = Some (set_mutator j MDone (s\<lparr>cnq := rest\<rparr>))
        \<and> ctr (set_mutator j MDone (s\<lparr>cnq := rest\<rparr>)) = ctr s)"
  by (auto simp: fire_def parseStream_step_def handleNQuads_step_def Error_def
        set_parser_def set_mutator_def)

theorem error_checked_after_receive_witness:
  "exec scenarioC err_prefix init = Some s_err
   \<and> exec scenarioC [Pa 1, Pa 1] s_err = Some (set_parser 1 PDone (s_err\<lparr>input := []\<rparr>))
   \<and> exec scenarioC [Mu 0 ok, Mu 0 ok] s_err = Some (set_mutator 0 MDone (s_err\<lparr>cnq := []\<rparr>))
   \<and> exec scenarioC err_rest s_err = Some final_C
   \<and> ctr final_C = \<lparr>read = 3, parsed = 1, processed = 0, ignored = 0\<rparr>"
proof -
  have h: "1 < length (parsers s_err) \<and> parsers s_err ! 1 = PRecv
      \<and> input s_err = ''a b c .'' # [] \<and> err s_err \<noteq> None \<and> crashed s_err = None"
    "0 < length (mutators s_err) \<and> mutators s_err ! 0 = MRecv \<and> cnq s_err = nq_abc # []
      \<and> err s_err \<noteq> None \<and> crashed s_err = None"
    by (simp_all add: s_err_def)
  from error_checked_after_receive
         [of 1 s_err "''a b c .''" "[]" scenarioC 0 nq_abc "[]" ok ok] h
  have "exec scenarioC [Pa 1, Pa 1] s_err = Some (set_parser 1 PDone (s_err\<lparr>input := []\<rparr>))"
    and "exec scenarioC [Mu 0 ok, Mu 0 ok] s_err
           = Some (set_mutator 0 MDone (s_err\<lparr>cnq := []\<rparr>))"
    by blast+
  moreover have "ctr final_C = \<lparr>read = 3, parsed = 1, processed = 0, ignored = 0\<rparr>"
    by (simp add: final_C_def)
  ultimately show ?thesis using err_prefix_C err_rest_C by simp
qed

end
